theory Spec2Isabelle
  imports Complex_Main
begin

section \<open>The science fair scheduler (science_fair.py)\<close>

text \<open>
  The script reads one row per student (first name, last name and four ranked activity
  names), builds an integer linear program over one binary decision variable per
  (period, student, activity), hands it to the solver, reads the solved values back into
  one list of activity names per student, writes the rows of the output file and then
  recomputes how many students got which of their choices.

  The two file helpers and the solver are outside the script's own logic: the rows that
  \<open>read_in_csv_to_list\<close> returns are the input of the model, the two arguments that
  \<open>write_list_to_csv\<close> receives are its output, and \<open>prob.solve()\<close> is a parameter that
  maps the built problem to a status and a value for every variable.
\<close>

subsection \<open>Errors\<close>

text \<open>
  Every exception the script can raise is a value: a failed tuple unpacking is
  \<open>ValueError\<close>, a missing dictionary key is \<open>KeyError\<close> (with the key), the failed
  \<open>assert\<close> is \<open>AssertionError\<close> with its message, and the division of the report by a
  student count of zero is \<open>ZeroDivisionError\<close>.
\<close>

datatype error =
    ValueError
  | KeyError string
  | KeyErrorId nat
  | AssertionError string
  | ZeroDivisionError

text \<open>A \<open>for\<close> loop that builds one item per element and stops at the first exception.\<close>

fun for_each :: "('a \<Rightarrow> error + 'b) \<Rightarrow> 'a list \<Rightarrow> error + 'b list" where
  "for_each f [] = Inr []"
| "for_each f (x # xs) =
     (case f x of
        Inl e \<Rightarrow> Inl e
      | Inr y \<Rightarrow> (case for_each f xs of Inl e \<Rightarrow> Inl e | Inr ys \<Rightarrow> Inr (y # ys)))"

subsection \<open>Step 2: constants\<close>

definition ACTIVITIES_LIST :: "string list" where
  "ACTIVITIES_LIST =
     [''100ChartPicture'', ''BubbleMania'', ''Closeto20'',
      ''Measuring'', ''MysteryNumber'', ''PicoPhonyZilch'',
      ''PuzzleinaBag'', ''RacetoaFlat'', ''Salute'',
      ''ShapeCodes'', ''SteppingStones'']"

definition NUM_ACTIVITIES :: nat where
  "NUM_ACTIVITIES = length ACTIVITIES_LIST"

definition NUM_PERIODS :: nat where
  "NUM_PERIODS = 3"

definition MIN_NUM_IN_ACTIVITY :: int where
  "MIN_NUM_IN_ACTIVITY = 5"

definition MAX_NUM_IN_ACTIVITY :: int where
  "MAX_NUM_IN_ACTIVITY = 9"

subsection \<open>Step 3: student preferences\<close>

text \<open>
  Both dictionaries are filled from \<open>enumerate(ACTIVITIES_LIST)\<close>, a later entry
  overwriting an earlier one with the same key.
\<close>

definition activities_dict :: "string \<rightharpoonup> nat" where
  "activities_dict =
     fold (\<lambda>(n, activity) d. d(activity \<mapsto> n)) (enumerate 0 ACTIVITIES_LIST) Map.empty"

definition activities_dict_reverse :: "nat \<rightharpoonup> string" where
  "activities_dict_reverse =
     fold (\<lambda>(n, activity) d. d(n \<mapsto> activity)) (enumerate 0 ACTIVITIES_LIST) Map.empty"

record student_info =
  choices :: "nat list"
  choices_full_names :: "string list"
  name :: string
  assignments :: "string list"

text \<open>\<open>activities_dict[c]\<close>: a name outside the catalog raises \<open>KeyError\<close>.\<close>

definition activity_id :: "string \<Rightarrow> error + nat" where
  "activity_id c = (case activities_dict c of None \<Rightarrow> Inl (KeyError c) | Some n \<Rightarrow> Inr n)"

text \<open>
  The body of the loop over the rows: the row is unpacked into exactly six fields
  (\<open>ValueError\<close> otherwise), then the four choices are looked up in rank order.
\<close>

fun student_info_dict :: "string list \<Rightarrow> error + student_info" where
  "student_info_dict [first_name, last_name, choice1, choice2, choice3, choice4] =
     (case for_each activity_id [choice1, choice2, choice3, choice4] of
        Inl e \<Rightarrow> Inl e
      | Inr ids \<Rightarrow>
          Inr \<lparr>choices = ids,
               choices_full_names = [choice1, choice2, choice3, choice4],
               name = last_name @ '', '' @ first_name,
               assignments = []\<rparr>)"
| "student_info_dict row = Inl ValueError"

text \<open>
  \<open>student_info_dicts\<close> has the keys \<open>0 .. NUM_STUDENTS - 1\<close>, so it is the list of its
  values in key order.
\<close>

definition student_info_dicts :: "string list list \<Rightarrow> error + student_info list" where
  "student_info_dicts student_choice_data = for_each student_info_dict student_choice_data"

subsection \<open>Steps 4 and 5: the problem and its decision variables\<close>

text \<open>
  A decision variable is \<open>decision_vars_list[period][(i, j)]\<close>, written here as the triple
  \<open>(period, i, j)\<close>. Every one is created with lower bound 0, upper bound 1 and category
  \<open>LpBinary\<close>.
\<close>

type_synonym decision_var = "nat \<times> nat \<times> nat"

text \<open>A linear expression is a list of terms: a variable and its coefficient.\<close>

type_synonym LpAffineExpression = "(decision_var \<times> int) list"

datatype LpConstraintSense = LpConstraintEQ | LpConstraintLE | LpConstraintGE

record LpConstraint =
  lhs :: LpAffineExpression
  rel :: LpConstraintSense
  rhs :: int

datatype LpSense = LpMinimize | LpMaximize

record LpProblem =
  sense :: LpSense
  variables :: "decision_var list"
  constraints :: "LpConstraint list"
  objective :: LpAffineExpression

definition decision_var_matrix :: "nat \<Rightarrow> (nat \<times> nat) list" where
  "decision_var_matrix NUM_STUDENTS =
     concat (map (\<lambda>i. map (\<lambda>j. (i, j)) [0..<NUM_ACTIVITIES]) [0..<NUM_STUDENTS])"

definition decision_vars_list :: "nat \<Rightarrow> decision_var list list" where
  "decision_vars_list NUM_STUDENTS =
     map (\<lambda>period. map (\<lambda>(i, j). (period, i, j)) (decision_var_matrix NUM_STUDENTS))
       [0..<NUM_PERIODS]"

text \<open>\<open>pulp.lpSum\<close> of a list of variables: every variable with coefficient 1.\<close>

definition lpSum :: "decision_var list \<Rightarrow> LpAffineExpression" where
  "lpSum vars_to_sum = map (\<lambda>x. (x, 1)) vars_to_sum"

subsection \<open>Step 6: constraints\<close>

text \<open>CONSTRAINT 1: each student must be in one and only one activity per period.\<close>

definition constraint_1 :: "nat \<Rightarrow> nat \<Rightarrow> LpConstraint" where
  "constraint_1 period i =
     \<lparr>lhs = lpSum (map (\<lambda>j. (period, i, j)) [0..<NUM_ACTIVITIES]),
      rel = LpConstraintEQ, rhs = 1\<rparr>"

definition constraints_1 :: "nat \<Rightarrow> LpConstraint list" where
  "constraints_1 NUM_STUDENTS =
     concat (map (\<lambda>period. map (\<lambda>i. constraint_1 period i) [0..<NUM_STUDENTS])
       [0..<NUM_PERIODS])"

text \<open>CONSTRAINT 2: a student cannot repeat an activity.\<close>

definition constraint_2 :: "nat \<Rightarrow> nat \<Rightarrow> LpConstraint" where
  "constraint_2 i j =
     \<lparr>lhs = lpSum (map (\<lambda>period. (period, i, j)) [0..<NUM_PERIODS]),
      rel = LpConstraintLE, rhs = 1\<rparr>"

definition constraints_2 :: "nat \<Rightarrow> LpConstraint list" where
  "constraints_2 NUM_STUDENTS =
     concat (map (\<lambda>i. map (\<lambda>j. constraint_2 i j) [0..<NUM_ACTIVITIES]) [0..<NUM_STUDENTS])"

text \<open>CONSTRAINT 3: each activity must have a minimum number of students.\<close>

definition constraint_3 :: "nat \<Rightarrow> nat \<Rightarrow> nat \<Rightarrow> LpConstraint" where
  "constraint_3 NUM_STUDENTS period j =
     \<lparr>lhs = lpSum (map (\<lambda>i. (period, i, j)) [0..<NUM_STUDENTS]),
      rel = LpConstraintGE, rhs = MIN_NUM_IN_ACTIVITY\<rparr>"

definition constraints_3 :: "nat \<Rightarrow> LpConstraint list" where
  "constraints_3 NUM_STUDENTS =
     concat (map (\<lambda>period. map (\<lambda>j. constraint_3 NUM_STUDENTS period j) [0..<NUM_ACTIVITIES])
       [0..<NUM_PERIODS])"

text \<open>CONSTRAINT 4: each activity can only have up to a maximum number of students.\<close>

definition constraint_4 :: "nat \<Rightarrow> nat \<Rightarrow> nat \<Rightarrow> LpConstraint" where
  "constraint_4 NUM_STUDENTS period j =
     \<lparr>lhs = lpSum (map (\<lambda>i. (period, i, j)) [0..<NUM_STUDENTS]),
      rel = LpConstraintLE, rhs = MAX_NUM_IN_ACTIVITY\<rparr>"

definition constraints_4 :: "nat \<Rightarrow> LpConstraint list" where
  "constraints_4 NUM_STUDENTS =
     concat (map (\<lambda>period. map (\<lambda>j. constraint_4 NUM_STUDENTS period j) [0..<NUM_ACTIVITIES])
       [0..<NUM_PERIODS])"

text \<open>
  CONSTRAINT 5: each student must get 3 of their 4 choices. The variables are listed
  period by period and, inside a period, in the order of the student's choices.
\<close>

definition constraint_5 :: "nat \<Rightarrow> student_info \<Rightarrow> LpConstraint" where
  "constraint_5 i student_dict =
     \<lparr>lhs = lpSum (concat (map (\<lambda>period. map (\<lambda>j. (period, i, j)) (choices student_dict))
               [0..<NUM_PERIODS])),
      rel = LpConstraintEQ, rhs = 3\<rparr>"

definition constraints_5 :: "student_info list \<Rightarrow> LpConstraint list" where
  "constraints_5 students = map (\<lambda>(i, student_dict). constraint_5 i student_dict)
     (enumerate 0 students)"

subsection \<open>Step 6 (second): the objective function\<close>

text \<open>
  The four terms a student adds for one period. The list of choices is unpacked into
  exactly four names, so any other length raises \<open>ValueError\<close>.
\<close>

fun objective_function_part :: "nat \<Rightarrow> nat \<Rightarrow> nat list \<Rightarrow> error + LpAffineExpression" where
  "objective_function_part period i [choice1, choice2, choice3, choice4] =
     Inr [((period, i, choice1), 1000),
          ((period, i, choice2), 100),
          ((period, i, choice3), 10),
          ((period, i, choice4), 1)]"
| "objective_function_part period i cs = Inl ValueError"

definition period_student_pairs :: "student_info list \<Rightarrow> (nat \<times> nat \<times> student_info) list" where
  "period_student_pairs students =
     concat (map (\<lambda>period. map (\<lambda>(i, student_dict). (period, i, student_dict))
       (enumerate 0 students)) [0..<NUM_PERIODS])"

definition objective_function_parts :: "student_info list \<Rightarrow> error + LpAffineExpression list" where
  "objective_function_parts students =
     for_each (\<lambda>(period, i, student_dict). objective_function_part period i (choices student_dict))
       (period_student_pairs students)"

text \<open>
  The problem after steps 4 to 6: a maximisation over all decision variables, the five
  families of constraints in the order the script adds them, and the sum of the parts of
  the objective function.
\<close>

definition prob :: "student_info list \<Rightarrow> error + LpProblem" where
  "prob students =
     (case objective_function_parts students of
        Inl e \<Rightarrow> Inl e
      | Inr parts \<Rightarrow>
          Inr \<lparr>sense = LpMaximize,
               variables = concat (decision_vars_list (length students)),
               constraints =
                 constraints_1 (length students) @ constraints_2 (length students) @
                 constraints_3 (length students) @ constraints_4 (length students) @
                 constraints_5 students,
               objective = concat parts\<rparr>)"

subsection \<open>What a solution of the problem is\<close>

type_synonym solution = "decision_var \<Rightarrow> int"

definition expr_value :: "solution \<Rightarrow> LpAffineExpression \<Rightarrow> int" where
  "expr_value varValue e = sum_list (map (\<lambda>(x, c). c * varValue x) e)"

definition satisfies :: "solution \<Rightarrow> LpConstraint \<Rightarrow> bool" where
  "satisfies varValue c =
     (case rel c of
        LpConstraintEQ \<Rightarrow> expr_value varValue (lhs c) = rhs c
      | LpConstraintLE \<Rightarrow> expr_value varValue (lhs c) \<le> rhs c
      | LpConstraintGE \<Rightarrow> expr_value varValue (lhs c) \<ge> rhs c)"

text \<open>
  A solution is feasible when every variable of the problem has the value 0 or 1 and
  every constraint holds. The solver's status \<open>optimal\<close> promises a feasible solution of
  largest objective value.
\<close>

definition feasible :: "LpProblem \<Rightarrow> solution \<Rightarrow> bool" where
  "feasible p varValue =
     (list_all (\<lambda>x. varValue x = 0 \<or> varValue x = 1) (variables p) \<and>
      list_all (satisfies varValue) (constraints p))"

subsection \<open>Step 7: solving\<close>

text \<open>
  \<open>prob.solve()\<close> returns a status and leaves a value in every variable. The script
  goes on only when the status is 1 (pulp's \<open>LpStatusOptimal\<close>); any other status fails
  the \<open>assert\<close>, with the same message.
\<close>

type_synonym solver = "LpProblem \<Rightarrow> int \<times> solution"

definition check_solution_found :: "int \<Rightarrow> error + unit" where
  "check_solution_found solution_found =
     (if solution_found = 1 then Inr () else Inl (AssertionError ''solution not found''))"

subsection \<open>Step 8: extracting the solution\<close>

text \<open>
  \<open>student_info_dicts[i]['assignments'].append(a)\<close>. The index is always a key of the
  dictionary, since the loop runs over \<open>range(NUM_STUDENTS)\<close>.
\<close>

definition append_assignment :: "nat \<Rightarrow> string \<Rightarrow> student_info list \<Rightarrow> student_info list" where
  "append_assignment i a students =
     students[i := (students ! i)\<lparr>assignments := assignments (students ! i) @ [a]\<rparr>]"

text \<open>The innermost loop, over the activities \<open>j\<close>, for one period and one student.\<close>

fun extract_activities ::
  "solution \<Rightarrow> nat \<Rightarrow> nat \<Rightarrow> nat list \<Rightarrow> student_info list \<Rightarrow> error + student_info list" where
  "extract_activities varValue period i [] students = Inr students"
| "extract_activities varValue period i (j # js) students =
     (if varValue (period, i, j) = 1 then
        (case activities_dict_reverse j of
           None \<Rightarrow> Inl (KeyErrorId j)
         | Some a \<Rightarrow> extract_activities varValue period i js (append_assignment i a students))
      else extract_activities varValue period i js students)"

text \<open>The loop over the students \<open>i\<close>, for one period.\<close>

fun extract_students ::
  "solution \<Rightarrow> nat \<Rightarrow> nat list \<Rightarrow> student_info list \<Rightarrow> error + student_info list" where
  "extract_students varValue period [] students = Inr students"
| "extract_students varValue period (i # is) students =
     (case extract_activities varValue period i [0..<NUM_ACTIVITIES] students of
        Inl e \<Rightarrow> Inl e
      | Inr students' \<Rightarrow> extract_students varValue period is students')"

text \<open>The outer loop, over the periods.\<close>

fun extract_periods ::
  "solution \<Rightarrow> nat list \<Rightarrow> student_info list \<Rightarrow> error + student_info list" where
  "extract_periods varValue [] students = Inr students"
| "extract_periods varValue (period # periods) students =
     (case extract_students varValue period [0..<length students] students of
        Inl e \<Rightarrow> Inl e
      | Inr students' \<Rightarrow> extract_periods varValue periods students')"

definition extract_solution :: "solution \<Rightarrow> student_info list \<Rightarrow> error + student_info list" where
  "extract_solution varValue students = extract_periods varValue [0..<NUM_PERIODS] students"

text \<open>
  One row of \<open>results\<close>: the four choices and the three assignments are unpacked, each
  raising \<open>ValueError\<close> on any other number of items.
\<close>

fun results_row :: "string \<Rightarrow> string list \<Rightarrow> string list \<Rightarrow> error + string list" where
  "results_row name' [choice1, choice2, choice3, choice4] [assignment1, assignment2, assignment3] =
     Inr [name', choice1, choice2, choice3, choice4, assignment1, assignment2, assignment3]"
| "results_row name' cs as = Inl ValueError"

definition results :: "student_info list \<Rightarrow> error + string list list" where
  "results students =
     for_each (\<lambda>student_dict. results_row (name student_dict)
                 (choices_full_names student_dict) (assignments student_dict)) students"

definition headers :: "string list" where
  "headers = [''name'', ''choice1'', ''choice2'', ''choice3'', ''choice4'',
              ''assignment1'', ''assignment2'', ''assignment3'', ''assignment4'']"

text \<open>
  What \<open>write_list_to_csv\<close> is called with: the header row, written first since it is not
  empty, and the data rows.
\<close>

record csv_output =
  header_row :: "string list"
  data_rows :: "string list list"

subsection \<open>Step 9: the sanity check\<close>

record totals =
  total_got_choice1 :: nat
  total_got_choice2 :: nat
  total_got_choice3 :: nat
  total_got_choice4 :: nat
  total_got_3_of_4 :: nat

definition got_choice :: "string \<Rightarrow> string list \<Rightarrow> nat" where
  "got_choice choice as = (if choice \<in> set as then 1 else 0)"

text \<open>The body of the loop over the students: it reads the names of the choices and the
  list of assignments of one student, nothing else.\<close>

fun sanity_check_student :: "totals \<Rightarrow> string list \<Rightarrow> string list \<Rightarrow> error + totals" where
  "sanity_check_student t [choice1, choice2, choice3, choice4] as =
     Inr \<lparr>total_got_choice1 = total_got_choice1 t + got_choice choice1 as,
          total_got_choice2 = total_got_choice2 t + got_choice choice2 as,
          total_got_choice3 = total_got_choice3 t + got_choice choice3 as,
          total_got_choice4 = total_got_choice4 t + got_choice choice4 as,
          total_got_3_of_4 =
            (if got_choice choice1 as + got_choice choice2 as +
                got_choice choice3 as + got_choice choice4 as = 3
             then total_got_3_of_4 t + 1 else total_got_3_of_4 t)\<rparr>"
| "sanity_check_student t cs as = Inl ValueError"

fun sanity_check_loop :: "totals \<Rightarrow> student_info list \<Rightarrow> error + totals" where
  "sanity_check_loop t [] = Inr t"
| "sanity_check_loop t (student_dict # students) =
     (case sanity_check_student t (choices_full_names student_dict) (assignments student_dict) of
        Inl e \<Rightarrow> Inl e
      | Inr t' \<Rightarrow> sanity_check_loop t' students)"

definition sanity_check :: "student_info list \<Rightarrow> error + totals" where
  "sanity_check students =
     sanity_check_loop
       \<lparr>total_got_choice1 = 0, total_got_choice2 = 0, total_got_choice3 = 0,
        total_got_choice4 = 0, total_got_3_of_4 = 0\<rparr> students"

text \<open>
  \<open>float(total) / NUM_STUDENTS * 100\<close>, in exact arithmetic; no student at all raises
  \<open>ZeroDivisionError\<close>.
\<close>

definition percent :: "nat \<Rightarrow> nat \<Rightarrow> error + rat" where
  "percent total_got NUM_STUDENTS =
     (if NUM_STUDENTS = 0 then Inl ZeroDivisionError
      else Inr (of_nat total_got / of_nat NUM_STUDENTS * 100))"

record report =
  percent_choice1 :: rat
  percent_choice2 :: rat
  percent_choice3 :: rat
  percent_choice4 :: rat
  percent_3_of_4 :: rat

definition print_report :: "totals \<Rightarrow> nat \<Rightarrow> error + report" where
  "print_report t NUM_STUDENTS =
     (case percent (total_got_choice1 t) NUM_STUDENTS of Inl e \<Rightarrow> Inl e | Inr p1 \<Rightarrow>
     (case percent (total_got_choice2 t) NUM_STUDENTS of Inl e \<Rightarrow> Inl e | Inr p2 \<Rightarrow>
     (case percent (total_got_choice3 t) NUM_STUDENTS of Inl e \<Rightarrow> Inl e | Inr p3 \<Rightarrow>
     (case percent (total_got_choice4 t) NUM_STUDENTS of Inl e \<Rightarrow> Inl e | Inr p4 \<Rightarrow>
     (case percent (total_got_3_of_4 t) NUM_STUDENTS of Inl e \<Rightarrow> Inl e | Inr p5 \<Rightarrow>
        Inr \<lparr>percent_choice1 = p1, percent_choice2 = p2, percent_choice3 = p3,
             percent_choice4 = p4, percent_3_of_4 = p5\<rparr>)))))"

subsection \<open>The script\<close>

text \<open>
  Steps 1 to 8, up to the call of \<open>write_list_to_csv\<close>: the result is the content of the
  output file together with the students after the extraction.
\<close>

definition assignment_outputs ::
  "string list list \<Rightarrow> solver \<Rightarrow> error + (csv_output \<times> student_info list)" where
  "assignment_outputs student_choice_data solve =
     (case student_info_dicts student_choice_data of Inl e \<Rightarrow> Inl e | Inr students \<Rightarrow>
     (case prob students of Inl e \<Rightarrow> Inl e | Inr p \<Rightarrow>
     (case check_solution_found (fst (solve p)) of Inl e \<Rightarrow> Inl e | Inr u \<Rightarrow>
     (case extract_solution (snd (solve p)) students of Inl e \<Rightarrow> Inl e | Inr students' \<Rightarrow>
     (case results students' of Inl e \<Rightarrow> Inl e | Inr rows \<Rightarrow>
        Inr (\<lparr>header_row = headers, data_rows = rows\<rparr>, students'))))))"

text \<open>The whole run: the output file, then the totals and the printed percentages.\<close>

definition science_fair ::
  "string list list \<Rightarrow> solver \<Rightarrow> error + (csv_output \<times> totals \<times> report)" where
  "science_fair student_choice_data solve =
     (case assignment_outputs student_choice_data solve of Inl e \<Rightarrow> Inl e
      | Inr (out, students') \<Rightarrow>
     (case sanity_check students' of Inl e \<Rightarrow> Inl e | Inr t \<Rightarrow>
     (case print_report t (length student_choice_data) of Inl e \<Rightarrow> Inl e | Inr r \<Rightarrow>
        Inr (out, t, r))))"

subsection \<open>The activities a solution gives a student\<close>

text \<open>
  The names that the extraction appends for one student in one period: those of the
  activities whose variable has the value 1, in the order of their numbers.
\<close>

definition period_assignment :: "solution \<Rightarrow> nat \<Rightarrow> nat \<Rightarrow> string list" where
  "period_assignment varValue period i =
     map (\<lambda>j. ACTIVITIES_LIST ! j)
       (filter (\<lambda>j. varValue (period, i, j) = 1) [0..<NUM_ACTIVITIES])"

subsection \<open>A school of 55 students\<close>

text \<open>
  A concrete run, used to instantiate the properties below. Student \<open>i\<close> ranks the four
  activities \<open>i\<close>, \<open>i + 1\<close>, \<open>i + 2\<close> and \<open>i + 3\<close> (counted modulo 11), and the solution sends
  student \<open>i\<close> to activity \<open>i + period\<close> (modulo 11) in each period, so that every activity
  has five students in every period and every student gets the first three choices.
\<close>

definition example_choices :: "nat \<Rightarrow> nat list" where
  "example_choices i = [i mod 11, (i + 1) mod 11, (i + 2) mod 11, (i + 3) mod 11]"

definition example_row :: "nat \<Rightarrow> string list" where
  "example_row i = [''Pat'', ''Lee''] @ map (\<lambda>j. ACTIVITIES_LIST ! j) (example_choices i)"

definition example_data :: "string list list" where
  "example_data = map example_row [0..<55]"

definition example_varValue :: solution where
  "example_varValue = (\<lambda>(period, i, j). if j = (i + period) mod 11 then 1 else 0)"

definition example_solve :: solver where
  "example_solve p = (1, example_varValue)"

definition example_student :: "nat \<Rightarrow> student_info" where
  "example_student i =
     \<lparr>choices = example_choices i,
      choices_full_names = map (\<lambda>j. ACTIVITIES_LIST ! j) (example_choices i),
      name = ''Lee, Pat'',
      assignments = []\<rparr>"

definition example_students :: "student_info list" where
  "example_students = map example_student [0..<55]"

definition example_prob :: LpProblem where
  "example_prob =
     \<lparr>sense = LpMaximize,
      variables = concat (decision_vars_list 55),
      constraints = constraints_1 55 @ constraints_2 55 @ constraints_3 55 @
                    constraints_4 55 @ constraints_5 example_students,
      objective = concat (map (\<lambda>(period, i, student_dict).
                      [((period, i, choices student_dict ! 0), 1000),
                       ((period, i, choices student_dict ! 1), 100),
                       ((period, i, choices student_dict ! 2), 10),
                       ((period, i, choices student_dict ! 3), 1)])
                    (period_student_pairs example_students))\<rparr>"

definition example_assignments :: "nat \<Rightarrow> string list" where
  "example_assignments i =
     [ACTIVITIES_LIST ! (i mod 11), ACTIVITIES_LIST ! ((i + 1) mod 11),
      ACTIVITIES_LIST ! ((i + 2) mod 11)]"

definition example_extracted :: "student_info list" where
  "example_extracted =
     map (\<lambda>i. (example_student i)\<lparr>assignments := example_assignments i\<rparr>) [0..<55]"

definition example_output :: csv_output where
  "example_output =
     \<lparr>header_row = headers,
      data_rows = map (\<lambda>i. ''Lee, Pat'' # map (\<lambda>j. ACTIVITIES_LIST ! j) (example_choices i) @
                          example_assignments i) [0..<55]\<rparr>"

subsection \<open>The coefficient of a variable in a linear expression\<close>

text \<open>
  \<open>pulp.lpSum\<close> adds up the coefficients of the terms that name the same variable; a
  variable that no term names has the coefficient 0.
\<close>

definition coefficient :: "LpAffineExpression \<Rightarrow> decision_var \<Rightarrow> int" where
  "coefficient e x = sum_list (map snd (filter (\<lambda>(x', c). x' = x) e))"

section \<open>Properties\<close>

subsection \<open>The activity catalog and its two dictionaries\<close>

lemma NUM_ACTIVITIES_eq: "NUM_ACTIVITIES = 11"
  by (simp add: NUM_ACTIVITIES_def ACTIVITIES_LIST_def)

lemma distinct_ACTIVITIES_LIST: "distinct ACTIVITIES_LIST"
  by (simp add: ACTIVITIES_LIST_def)

lemma fold_reverse_dict:
  "fold (\<lambda>(n, activity) d. d(n \<mapsto> activity)) (enumerate k xs) m j =
     (if k \<le> j \<and> j < k + length xs then Some (xs ! (j - k)) else m j)"
proof (induction xs arbitrary: k m)
  case Nil
  then show ?case by auto
next
  case (Cons x xs)
  have "fold (\<lambda>(n, activity) d. d(n \<mapsto> activity)) (enumerate k (x # xs)) m j =
        fold (\<lambda>(n, activity) d. d(n \<mapsto> activity)) (enumerate (Suc k) xs) (m(k \<mapsto> x)) j"
    by (simp del: fun_upd_apply)
  also have "\<dots> = (if Suc k \<le> j \<and> j < Suc k + length xs then Some (xs ! (j - Suc k))
                    else (m(k \<mapsto> x)) j)"
    by (rule Cons.IH)
  also have "\<dots> = (if k \<le> j \<and> j < k + length (x # xs) then Some ((x # xs) ! (j - k)) else m j)"
    by (auto simp: nth_Cons' Suc_diff_Suc)
  finally show ?case .
qed

lemma activities_dict_reverse_eq:
  "activities_dict_reverse j = (if j < NUM_ACTIVITIES then Some (ACTIVITIES_LIST ! j) else None)"
  by (simp add: activities_dict_reverse_def fold_reverse_dict NUM_ACTIVITIES_def)

lemma fold_dict_notin:
  "c \<notin> set xs \<Longrightarrow> fold (\<lambda>(n, activity) d. d(activity \<mapsto> n)) (enumerate k xs) m c = m c"
  by (induction xs arbitrary: k m) (auto simp del: fun_upd_apply simp: fun_upd_same fun_upd_other)

lemma fold_dict_nth:
  "distinct xs \<Longrightarrow> i < length xs \<Longrightarrow>
     fold (\<lambda>(n, activity) d. d(activity \<mapsto> n)) (enumerate k xs) m (xs ! i) = Some (k + i)"
proof (induction xs arbitrary: k m i)
  case Nil
  then show ?case by simp
next
  case (Cons x xs)
  show ?case
  proof (cases i)
    case 0
    from Cons.prems have "x \<notin> set xs" by simp
    from fold_dict_notin [OF this, of "Suc k" "m(x \<mapsto> k)"] 0
    show ?thesis by (simp del: fun_upd_apply add: fun_upd_same)
  next
    case (Suc i')
    with Cons.prems show ?thesis by (simp add: Cons.IH del: fun_upd_apply)
  qed
qed

lemma activities_dict_nth:
  "n < NUM_ACTIVITIES \<Longrightarrow> activities_dict (ACTIVITIES_LIST ! n) = Some n"
  using fold_dict_nth [OF distinct_ACTIVITIES_LIST, of n 0 Map.empty]
  by (simp add: activities_dict_def NUM_ACTIVITIES_def)

lemma activities_dict_Some:
  assumes "activities_dict c = Some n"
  shows "n < NUM_ACTIVITIES \<and> ACTIVITIES_LIST ! n = c"
proof (cases "c \<in> set ACTIVITIES_LIST")
  case True
  then obtain i where i: "i < length ACTIVITIES_LIST" "ACTIVITIES_LIST ! i = c"
    by (auto simp: in_set_conv_nth)
  then have "activities_dict c = Some i"
    using activities_dict_nth [of i] by (simp add: NUM_ACTIVITIES_def)
  with assms i show ?thesis by (simp add: NUM_ACTIVITIES_def)
next
  case False
  then have "activities_dict c = None"
    by (simp add: activities_dict_def fold_dict_notin)
  with assms show ?thesis by simp
qed

lemma activities_nth_inj:
  "i < NUM_ACTIVITIES \<Longrightarrow> j < NUM_ACTIVITIES \<Longrightarrow>
     ACTIVITIES_LIST ! i = ACTIVITIES_LIST ! j \<longleftrightarrow> i = j"
  using distinct_ACTIVITIES_LIST by (simp add: NUM_ACTIVITIES_def nth_eq_iff_index_eq)

subsection \<open>Loops that may raise\<close>

lemma for_each_Inr_D: "for_each f xs = Inr ys \<Longrightarrow> list_all2 (\<lambda>x y. f x = Inr y) xs ys"
  by (induction xs arbitrary: ys) (auto split: sum.splits)

lemma for_each_Inr_I: "list_all2 (\<lambda>x y. f x = Inr y) xs ys \<Longrightarrow> for_each f xs = Inr ys"
  by (induction xs ys rule: list_all2_induct) auto

lemma for_each_Inr_iff: "for_each f xs = Inr ys \<longleftrightarrow> list_all2 (\<lambda>x y. f x = Inr y) xs ys"
  using for_each_Inr_D for_each_Inr_I by blast

lemma for_each_length: "for_each f xs = Inr ys \<Longrightarrow> length ys = length xs"
  by (drule for_each_Inr_D) (simp add: list_all2_lengthD)

lemma for_each_nth: "for_each f xs = Inr ys \<Longrightarrow> i < length xs \<Longrightarrow> f (xs ! i) = Inr (ys ! i)"
  by (drule for_each_Inr_D) (auto dest: list_all2_nthD)

lemma for_each_map: "(\<And>x. x \<in> set xs \<Longrightarrow> f x = Inr (g x)) \<Longrightarrow> for_each f xs = Inr (map g xs)"
  by (induction xs) auto

lemma for_each_Inl:
  "for_each f xs = Inl e \<Longrightarrow> \<exists>x \<in> set xs. f x = Inl e"
  by (induction xs) (auto split: sum.splits)

lemma for_each_cases:
  "(\<exists>ys. for_each f xs = Inr ys) \<or> (\<exists>x \<in> set xs. \<exists>e. f x = Inl e)"
  by (induction xs) (auto split: sum.splits)

subsection \<open>Loading the students\<close>

lemma activity_id_Inr: "activity_id c = Inr n \<longleftrightarrow> n < NUM_ACTIVITIES \<and> ACTIVITIES_LIST ! n = c"
  using activities_dict_Some [of c] activities_dict_nth [of n]
  by (auto simp: activity_id_def split: option.splits)

lemma student_info_dict_Inr:
  assumes "student_info_dict row = Inr st"
  obtains first_name last_name c1 c2 c3 c4 n1 n2 n3 n4 where
    "row = [first_name, last_name, c1, c2, c3, c4]"
    "st = \<lparr>choices = [n1, n2, n3, n4], choices_full_names = [c1, c2, c3, c4],
           name = last_name @ '', '' @ first_name, assignments = []\<rparr>"
    "n1 < NUM_ACTIVITIES" "n2 < NUM_ACTIVITIES" "n3 < NUM_ACTIVITIES" "n4 < NUM_ACTIVITIES"
    "c1 = ACTIVITIES_LIST ! n1" "c2 = ACTIVITIES_LIST ! n2"
    "c3 = ACTIVITIES_LIST ! n3" "c4 = ACTIVITIES_LIST ! n4"
proof -
  from assms obtain first_name last_name c1 c2 c3 c4 where
    row: "row = [first_name, last_name, c1, c2, c3, c4]"
    by (cases row rule: student_info_dict.cases) auto
  from assms row obtain ids where
    ids: "for_each activity_id [c1, c2, c3, c4] = Inr ids"
    and st: "st = \<lparr>choices = ids, choices_full_names = [c1, c2, c3, c4],
           name = last_name @ '', '' @ first_name, assignments = []\<rparr>"
    by (auto split: sum.splits)
  from ids obtain n1 n2 n3 n4 where
    "ids = [n1, n2, n3, n4]" "activity_id c1 = Inr n1" "activity_id c2 = Inr n2"
    "activity_id c3 = Inr n3" "activity_id c4 = Inr n4"
    by (auto split: sum.splits)
  with row st that show thesis
    by (auto simp: activity_id_Inr)
qed

lemma student_info_dict_rank:
  assumes "student_info_dict row = Inr st"
  shows "length (choices st) = 4 \<and> length (choices_full_names st) = 4 \<and>
         assignments st = [] \<and>
         (\<forall>r<4. choices st ! r < NUM_ACTIVITIES \<and>
                 choices_full_names st ! r = ACTIVITIES_LIST ! (choices st ! r))"
  using assms
  by (elim student_info_dict_Inr) (auto simp: less_Suc_eq numeral_eq_Suc)

subsection \<open>The built problem\<close>

lemma prob_fields:
  assumes "prob students = Inr p"
  shows "sense p = LpMaximize"
    and "variables p = concat (decision_vars_list (length students))"
    and "constraints p =
           constraints_1 (length students) @ constraints_2 (length students) @
           constraints_3 (length students) @ constraints_4 (length students) @
           constraints_5 students"
  using assms by (auto simp: prob_def split: sum.splits)

lemma mem_variables:
  "(period, i, j) \<in> set (concat (decision_vars_list n)) \<longleftrightarrow>
     period < NUM_PERIODS \<and> i < n \<and> j < NUM_ACTIVITIES"
  by (auto simp: decision_vars_list_def decision_var_matrix_def image_iff)

lemma sum_list_concat_map:
  "sum_list (map f (concat xss)) = (\<Sum>xs\<leftarrow>xss. sum_list (map f xs))"
  by (induction xss) auto

lemma expr_value_lpSum: "expr_value varValue (lpSum xs) = sum_list (map varValue xs)"
  by (simp add: expr_value_def lpSum_def comp_def)

lemma list_all_enumerate: "list_all P (enumerate 0 xs) \<longleftrightarrow> (\<forall>i<length xs. P (i, xs ! i))"
  by (auto simp: list_all_iff in_set_enumerate_eq)

lemma satisfies_constraint_1:
  "satisfies varValue (constraint_1 period i) \<longleftrightarrow>
     (\<Sum>j\<leftarrow>[0..<NUM_ACTIVITIES]. varValue (period, i, j)) = 1"
  by (simp add: satisfies_def constraint_1_def expr_value_lpSum comp_def)

lemma satisfies_constraint_2:
  "satisfies varValue (constraint_2 i j) \<longleftrightarrow>
     (\<Sum>period\<leftarrow>[0..<NUM_PERIODS]. varValue (period, i, j)) \<le> 1"
  by (simp add: satisfies_def constraint_2_def expr_value_lpSum comp_def)

lemma satisfies_constraint_3:
  "satisfies varValue (constraint_3 n period j) \<longleftrightarrow>
     MIN_NUM_IN_ACTIVITY \<le> (\<Sum>i\<leftarrow>[0..<n]. varValue (period, i, j))"
  by (simp add: satisfies_def constraint_3_def expr_value_lpSum comp_def)

lemma satisfies_constraint_4:
  "satisfies varValue (constraint_4 n period j) \<longleftrightarrow>
     (\<Sum>i\<leftarrow>[0..<n]. varValue (period, i, j)) \<le> MAX_NUM_IN_ACTIVITY"
  by (simp add: satisfies_def constraint_4_def expr_value_lpSum comp_def)

lemma satisfies_constraint_5:
  "satisfies varValue (constraint_5 i student_dict) \<longleftrightarrow>
     (\<Sum>period\<leftarrow>[0..<NUM_PERIODS]. \<Sum>j\<leftarrow>choices student_dict. varValue (period, i, j)) = 3"
  by (simp add: satisfies_def constraint_5_def expr_value_lpSum comp_def
      sum_list_concat_map)

lemma feasible_prob_iff:
  assumes "prob students = Inr p"
  shows "feasible p varValue \<longleftrightarrow>
     (\<forall>period<NUM_PERIODS. \<forall>i<length students. \<forall>j<NUM_ACTIVITIES.
         varValue (period, i, j) = 0 \<or> varValue (period, i, j) = 1) \<and>
     (\<forall>period<NUM_PERIODS. \<forall>i<length students.
         (\<Sum>j\<leftarrow>[0..<NUM_ACTIVITIES]. varValue (period, i, j)) = 1) \<and>
     (\<forall>i<length students. \<forall>j<NUM_ACTIVITIES.
         (\<Sum>period\<leftarrow>[0..<NUM_PERIODS]. varValue (period, i, j)) \<le> 1) \<and>
     (\<forall>period<NUM_PERIODS. \<forall>j<NUM_ACTIVITIES.
         MIN_NUM_IN_ACTIVITY \<le> (\<Sum>i\<leftarrow>[0..<length students]. varValue (period, i, j))) \<and>
     (\<forall>period<NUM_PERIODS. \<forall>j<NUM_ACTIVITIES.
         (\<Sum>i\<leftarrow>[0..<length students]. varValue (period, i, j)) \<le> MAX_NUM_IN_ACTIVITY) \<and>
     (\<forall>i<length students.
         (\<Sum>period\<leftarrow>[0..<NUM_PERIODS]. \<Sum>j\<leftarrow>choices (students ! i).
            varValue (period, i, j)) = 3)"
proof -
  have vars: "list_all (\<lambda>x. varValue x = 0 \<or> varValue x = 1) (variables p) \<longleftrightarrow>
      (\<forall>period<NUM_PERIODS. \<forall>i<length students. \<forall>j<NUM_ACTIVITIES.
         varValue (period, i, j) = 0 \<or> varValue (period, i, j) = 1)"
  proof -
    have mem: "\<And>period i j. (period, i, j) \<in> set (variables p) \<longleftrightarrow>
        period < NUM_PERIODS \<and> i < length students \<and> j < NUM_ACTIVITIES"
      unfolding prob_fields(2) [OF assms] by (rule mem_variables)
    show ?thesis
      unfolding list_all_iff using mem by fastforce
  qed
  have c1: "list_all (satisfies varValue) (constraints_1 (length students)) \<longleftrightarrow>
      (\<forall>period<NUM_PERIODS. \<forall>i<length students.
         (\<Sum>j\<leftarrow>[0..<NUM_ACTIVITIES]. varValue (period, i, j)) = 1)"
    by (auto simp: list_all_iff constraints_1_def satisfies_constraint_1)
  have c2: "list_all (satisfies varValue) (constraints_2 (length students)) \<longleftrightarrow>
      (\<forall>i<length students. \<forall>j<NUM_ACTIVITIES.
         (\<Sum>period\<leftarrow>[0..<NUM_PERIODS]. varValue (period, i, j)) \<le> 1)"
    by (auto simp: list_all_iff constraints_2_def satisfies_constraint_2)
  have c3: "list_all (satisfies varValue) (constraints_3 (length students)) \<longleftrightarrow>
      (\<forall>period<NUM_PERIODS. \<forall>j<NUM_ACTIVITIES.
         MIN_NUM_IN_ACTIVITY \<le> (\<Sum>i\<leftarrow>[0..<length students]. varValue (period, i, j)))"
    by (auto simp: list_all_iff constraints_3_def satisfies_constraint_3)
  have c4: "list_all (satisfies varValue) (constraints_4 (length students)) \<longleftrightarrow>
      (\<forall>period<NUM_PERIODS. \<forall>j<NUM_ACTIVITIES.
         (\<Sum>i\<leftarrow>[0..<length students]. varValue (period, i, j)) \<le> MAX_NUM_IN_ACTIVITY)"
    by (auto simp: list_all_iff constraints_4_def satisfies_constraint_4)
  have c5: "list_all (satisfies varValue) (constraints_5 students) \<longleftrightarrow>
      (\<forall>i<length students.
         (\<Sum>period\<leftarrow>[0..<NUM_PERIODS]. \<Sum>j\<leftarrow>choices (students ! i).
            varValue (period, i, j)) = 3)"
    by (simp add: constraints_5_def list_all_length satisfies_constraint_5 nth_enumerate_eq)
  show ?thesis
    unfolding feasible_def prob_fields(3) [OF assms] list_all_append vars c1 c2 c3 c4 c5
    by blast
qed

subsection \<open>The extraction loops\<close>

lemma extract_activities_eq:
  assumes "i < length students" "set js \<subseteq> {..<NUM_ACTIVITIES}"
  shows "extract_activities varValue period i js students =
     Inr (students[i := (students ! i)\<lparr>assignments := assignments (students ! i) @
            map (\<lambda>j. ACTIVITIES_LIST ! j) (filter (\<lambda>j. varValue (period, i, j) = 1) js)\<rparr>])"
  using assms
proof (induction js arbitrary: students)
  case Nil
  then show ?case by simp
next
  case (Cons j js)
  then show ?case
    by (simp add: activities_dict_reverse_eq append_assignment_def)
qed

lemma extract_activities_period:
  assumes "i < length students"
  shows "extract_activities varValue period i [0..<NUM_ACTIVITIES] students =
     Inr (students[i := (students ! i)\<lparr>assignments := assignments (students ! i) @
            period_assignment varValue period i\<rparr>])"
proof -
  have "set [0..<NUM_ACTIVITIES] \<subseteq> {..<NUM_ACTIVITIES}" by auto
  from extract_activities_eq [OF assms this] show ?thesis
    by (simp add: period_assignment_def)
qed

lemma extract_students_eq:
  assumes "\<forall>i\<in>set is. i < length students" "distinct is"
  shows "extract_students varValue period is students =
     Inr (map (\<lambda>k. if k \<in> set is
                    then (students ! k)\<lparr>assignments := assignments (students ! k) @
                           period_assignment varValue period k\<rparr>
                    else students ! k) [0..<length students])"
  using assms
proof (induction "is" arbitrary: students)
  case Nil
  then show ?case by (simp add: map_nth)
next
  case (Cons i "is")
  let ?s1 = "students[i := (students ! i)\<lparr>assignments := assignments (students ! i) @
            period_assignment varValue period i\<rparr>]"
  from Cons.prems have i: "i < length students" "i \<notin> set is" by auto
  have step: "extract_activities varValue period i [0..<NUM_ACTIVITIES] students = Inr ?s1"
    using i by (simp add: extract_activities_period)
  have "extract_students varValue period is ?s1 =
     Inr (map (\<lambda>k. if k \<in> set is
                    then (?s1 ! k)\<lparr>assignments := assignments (?s1 ! k) @
                           period_assignment varValue period k\<rparr>
                    else ?s1 ! k) [0..<length ?s1])"
    using Cons.prems by (intro Cons.IH) auto
  also have "\<dots> = Inr (map (\<lambda>k. if k \<in> set (i # is)
                    then (students ! k)\<lparr>assignments := assignments (students ! k) @
                           period_assignment varValue period k\<rparr>
                    else students ! k) [0..<length students])"
    using i by (auto simp: nth_list_update)
  finally show ?case
    by (simp add: step)
qed

lemma extract_students_all:
  "extract_students varValue period [0..<length students] students =
     Inr (map (\<lambda>k. (students ! k)\<lparr>assignments := assignments (students ! k) @
                       period_assignment varValue period k\<rparr>) [0..<length students])"
  using extract_students_eq [of "[0..<length students]" students varValue period]
  by simp

lemma extract_periods_eq:
  "extract_periods varValue periods students =
     Inr (map (\<lambda>k. (students ! k)\<lparr>assignments := assignments (students ! k) @
             concat (map (\<lambda>period. period_assignment varValue period k) periods)\<rparr>)
           [0..<length students])"
proof (induction periods arbitrary: students)
  case Nil
  then show ?case by (simp add: map_nth)
next
  case (Cons period periods)
  show ?case
    by (simp add: extract_students_all Cons.IH)
qed

lemma extract_solution_eq:
  "extract_solution varValue students =
     Inr (map (\<lambda>k. (students ! k)\<lparr>assignments := assignments (students ! k) @
             concat (map (\<lambda>period. period_assignment varValue period k) [0..<NUM_PERIODS])\<rparr>)
           [0..<length students])"
  by (simp add: extract_solution_def extract_periods_eq)

subsection \<open>Sums of binary values\<close>

lemma sum_list_binary:
  "(\<forall>x\<in>set xs. f x = 0 \<or> f x = (1::int)) \<Longrightarrow>
     (\<Sum>x\<leftarrow>xs. f x) = int (length (filter (\<lambda>x. f x = 1) xs))"
  by (induction xs) auto

lemma filter_length_1:
  assumes "length (filter P xs) = 1"
  shows "\<exists>x. filter P xs = [x] \<and> x \<in> set xs \<and> P x \<and> (\<forall>y\<in>set xs. P y \<longrightarrow> y = x)"
proof -
  from assms obtain x where x: "filter P xs = [x]"
    by (auto simp: length_Suc_conv)
  then have "set (filter P xs) = {x}" by simp
  then have "x \<in> set xs \<and> P x \<and> (\<forall>y\<in>set xs. P y \<longrightarrow> y = x)" by auto
  with x show ?thesis by blast
qed

lemma upt_NUM_PERIODS: "[0..<NUM_PERIODS] = [0, 1, 2]"
  by (simp add: NUM_PERIODS_def upt_rec)

lemma less_NUM_PERIODS: "period < NUM_PERIODS \<longleftrightarrow> period = 0 \<or> period = 1 \<or> period = 2"
  by (auto simp: NUM_PERIODS_def)

subsection \<open>What a feasible solution gives one student in one period\<close>

lemma feasible_one_activity:
  assumes "prob students = Inr p" "feasible p varValue"
    and "period < NUM_PERIODS" "i < length students"
  obtains j where "j < NUM_ACTIVITIES" "varValue (period, i, j) = 1"
    "\<forall>j'<NUM_ACTIVITIES. varValue (period, i, j') = 1 \<longrightarrow> j' = j"
    "period_assignment varValue period i = [ACTIVITIES_LIST ! j]"
proof -
  from assms have bin: "\<forall>j\<in>set [0..<NUM_ACTIVITIES].
      varValue (period, i, j) = 0 \<or> varValue (period, i, j) = 1"
    and one: "(\<Sum>j\<leftarrow>[0..<NUM_ACTIVITIES]. varValue (period, i, j)) = 1"
    by (simp_all add: feasible_prob_iff)
  have "int (length (filter (\<lambda>j. varValue (period, i, j) = 1) [0..<NUM_ACTIVITIES])) =
        (\<Sum>j\<leftarrow>[0..<NUM_ACTIVITIES]. varValue (period, i, j))"
    by (rule sum_list_binary [OF bin, symmetric])
  also have "\<dots> = 1" by (rule one)
  finally have "length (filter (\<lambda>j. varValue (period, i, j) = 1) [0..<NUM_ACTIVITIES]) = 1"
    by simp
  from filter_length_1 [OF this]
  obtain j where j: "filter (\<lambda>j. varValue (period, i, j) = 1) [0..<NUM_ACTIVITIES] = [j]"
    "j \<in> set [0..<NUM_ACTIVITIES]" "varValue (period, i, j) = 1"
    "\<forall>y\<in>set [0..<NUM_ACTIVITIES]. varValue (period, i, y) = 1 \<longrightarrow> y = j"
    by blast
  show thesis
  proof (rule that [of j])
    show "j < NUM_ACTIVITIES" using j(2) by simp
    show "varValue (period, i, j) = 1" by (rule j(3))
    show "\<forall>j'<NUM_ACTIVITIES. varValue (period, i, j') = 1 \<longrightarrow> j' = j" using j(4) by simp
    show "period_assignment varValue period i = [ACTIVITIES_LIST ! j]"
      by (simp add: period_assignment_def j(1))
  qed
qed

subsection \<open>The students after the extraction\<close>

lemma extract_solution_length:
  "extract_solution varValue students = Inr students' \<Longrightarrow> length students' = length students"
  by (auto simp: extract_solution_eq)

lemma extract_solution_nth:
  assumes "extract_solution varValue students = Inr students'" "i < length students"
  shows "students' ! i = (students ! i)\<lparr>assignments := assignments (students ! i) @
           period_assignment varValue 0 i @ period_assignment varValue 1 i @
           period_assignment varValue 2 i\<rparr>"
  using assms by (auto simp: extract_solution_eq upt_NUM_PERIODS)

lemma loaded_nth:
  assumes "student_info_dicts student_choice_data = Inr students" "i < length students"
  shows "student_info_dict (student_choice_data ! i) = Inr (students ! i)"
  using assms for_each_length [of student_info_dict student_choice_data students]
    for_each_nth [of student_info_dict student_choice_data students i]
  by (simp add: student_info_dicts_def)

lemma loaded_length:
  "student_info_dicts student_choice_data = Inr students \<Longrightarrow>
     length students = length student_choice_data"
  by (simp add: student_info_dicts_def for_each_length)

lemma loaded_assignments:
  assumes "student_info_dicts student_choice_data = Inr students" "i < length students"
    and "extract_solution varValue students = Inr students'"
  shows "assignments (students' ! i) =
           period_assignment varValue 0 i @ period_assignment varValue 1 i @
           period_assignment varValue 2 i"
    and "choices (students' ! i) = choices (students ! i)"
    and "choices_full_names (students' ! i) = choices_full_names (students ! i)"
    and "name (students' ! i) = name (students ! i)"
  using student_info_dict_rank [OF loaded_nth [OF assms(1,2)]]
    extract_solution_nth [OF assms(3,2)]
  by simp_all

lemma feasible_assignments:
  assumes "student_info_dicts student_choice_data = Inr students"
    and "prob students = Inr p" "feasible p varValue"
    and "extract_solution varValue students = Inr students'"
    and "i < length students"
  obtains j0 j1 j2 where
    "assignments (students' ! i) =
       [ACTIVITIES_LIST ! j0, ACTIVITIES_LIST ! j1, ACTIVITIES_LIST ! j2]"
    "j0 < NUM_ACTIVITIES" "j1 < NUM_ACTIVITIES" "j2 < NUM_ACTIVITIES"
    "\<forall>j<NUM_ACTIVITIES. varValue (0, i, j) = 1 \<longleftrightarrow> j = j0"
    "\<forall>j<NUM_ACTIVITIES. varValue (1, i, j) = 1 \<longleftrightarrow> j = j1"
    "\<forall>j<NUM_ACTIVITIES. varValue (2, i, j) = 1 \<longleftrightarrow> j = j2"
proof -
  have p: "0 < NUM_PERIODS" "1 < NUM_PERIODS" "2 < NUM_PERIODS"
    by (simp_all add: NUM_PERIODS_def)
  obtain j0 where j0: "j0 < NUM_ACTIVITIES" "varValue (0, i, j0) = 1"
    "\<forall>j'<NUM_ACTIVITIES. varValue (0, i, j') = 1 \<longrightarrow> j' = j0"
    "period_assignment varValue 0 i = [ACTIVITIES_LIST ! j0]"
    using feasible_one_activity [OF assms(2,3) p(1) assms(5)] by blast
  obtain j1 where j1: "j1 < NUM_ACTIVITIES" "varValue (1, i, j1) = 1"
    "\<forall>j'<NUM_ACTIVITIES. varValue (1, i, j') = 1 \<longrightarrow> j' = j1"
    "period_assignment varValue 1 i = [ACTIVITIES_LIST ! j1]"
    using feasible_one_activity [OF assms(2,3) p(2) assms(5)] by blast
  obtain j2 where j2: "j2 < NUM_ACTIVITIES" "varValue (2, i, j2) = 1"
    "\<forall>j'<NUM_ACTIVITIES. varValue (2, i, j') = 1 \<longrightarrow> j' = j2"
    "period_assignment varValue 2 i = [ACTIVITIES_LIST ! j2]"
    using feasible_one_activity [OF assms(2,3) p(3) assms(5)] by blast
  show thesis
  proof (rule that [of j0 j1 j2])
    show "assignments (students' ! i) =
       [ACTIVITIES_LIST ! j0, ACTIVITIES_LIST ! j1, ACTIVITIES_LIST ! j2]"
      using loaded_assignments(1) [OF assms(1,5,4)] j0(4) j1(4) j2(4) by simp
    show "\<forall>j<NUM_ACTIVITIES. varValue (0, i, j) = 1 \<longleftrightarrow> j = j0" using j0 by blast
    show "\<forall>j<NUM_ACTIVITIES. varValue (1, i, j) = 1 \<longleftrightarrow> j = j1" using j1 by blast
    show "\<forall>j<NUM_ACTIVITIES. varValue (2, i, j) = 1 \<longleftrightarrow> j = j2" using j2 by blast
  qed (rule j0(1) j1(1) j2(1))+
qed

subsection \<open>The rows of the output\<close>

lemma results_row_Inr:
  "results_row n cs as = Inr row \<longleftrightarrow> length cs = 4 \<and> length as = 3 \<and> row = n # cs @ as"
  by (cases "(n, cs, as)" rule: results_row.cases) auto

lemma results_row_Inl:
  "results_row n cs as = Inl e \<longleftrightarrow> (length cs \<noteq> 4 \<or> length as \<noteq> 3) \<and> e = ValueError"
  by (cases "(n, cs, as)" rule: results_row.cases) auto

lemma results_nth:
  assumes "results students = Inr rows" "i < length students"
  shows "length rows = length students"
    and "length (choices_full_names (students ! i)) = 4"
    and "length (assignments (students ! i)) = 3"
    and "rows ! i = name (students ! i) # choices_full_names (students ! i) @
           assignments (students ! i)"
  using for_each_length [OF assms(1) [unfolded results_def]]
    for_each_nth [OF assms(1) [unfolded results_def] assms(2)]
  by (simp_all add: results_row_Inr)

lemma results_Inr_iff:
  assumes "\<forall>st\<in>set students. length (choices_full_names st) = 4"
  shows "(\<exists>rows. results students = Inr rows) \<longleftrightarrow>
           (\<forall>st\<in>set students. length (assignments st) = 3)"
proof
  assume "\<exists>rows. results students = Inr rows"
  then obtain rows where rows: "results students = Inr rows" ..
  show "\<forall>st\<in>set students. length (assignments st) = 3"
    using results_nth(3) [OF rows] by (auto simp: in_set_conv_nth)
next
  assume len: "\<forall>st\<in>set students. length (assignments st) = 3"
  have "results students =
          Inr (map (\<lambda>st. name st # choices_full_names st @ assignments st) students)"
    unfolding results_def
    by (rule for_each_map) (use assms len in \<open>simp add: results_row_Inr\<close>)
  then show "\<exists>rows. results students = Inr rows" ..
qed

lemma results_Inl:
  "results students = Inl e \<Longrightarrow> e = ValueError"
  by (auto simp: results_def results_row_Inl dest!: for_each_Inl)

lemma length_headers: "length headers = 9"
  by (simp add: headers_def)

lemma assignment_outputs_Inr:
  assumes "assignment_outputs student_choice_data solve = Inr (out, students')"
  obtains students p rows where
    "student_info_dicts student_choice_data = Inr students"
    "prob students = Inr p"
    "fst (solve p) = 1"
    "extract_solution (snd (solve p)) students = Inr students'"
    "results students' = Inr rows"
    "out = \<lparr>header_row = headers, data_rows = rows\<rparr>"
  using assms
  by (auto simp: assignment_outputs_def check_solution_found_def split: sum.splits if_splits)

subsection \<open>The objective function of a loaded list of students\<close>

lemma objective_function_part_eq:
  "length cs = 4 \<Longrightarrow> objective_function_part period i cs =
     Inr [((period, i, cs ! 0), 1000), ((period, i, cs ! 1), 100),
          ((period, i, cs ! 2), 10), ((period, i, cs ! 3), 1)]"
  by (cases "(period, i, cs)" rule: objective_function_part.cases) auto

lemma in_period_student_pairs:
  "(period, i, st) \<in> set (period_student_pairs students) \<longleftrightarrow>
     period < NUM_PERIODS \<and> i < length students \<and> st = students ! i"
  by (auto simp: period_student_pairs_def in_set_enumerate_eq image_iff)

lemma prob_eq:
  assumes "\<forall>st\<in>set students. length (choices st) = 4"
  shows "prob students =
     Inr \<lparr>sense = LpMaximize,
          variables = concat (decision_vars_list (length students)),
          constraints =
            constraints_1 (length students) @ constraints_2 (length students) @
            constraints_3 (length students) @ constraints_4 (length students) @
            constraints_5 students,
          objective = concat (map (\<lambda>(period, i, student_dict).
                      [((period, i, choices student_dict ! 0), 1000),
                       ((period, i, choices student_dict ! 1), 100),
                       ((period, i, choices student_dict ! 2), 10),
                       ((period, i, choices student_dict ! 3), 1)])
                    (period_student_pairs students))\<rparr>"
proof -
  have "objective_function_parts students =
      Inr (map (\<lambda>(period, i, student_dict).
                      [((period, i, choices student_dict ! 0), 1000),
                       ((period, i, choices student_dict ! 1), 100),
                       ((period, i, choices student_dict ! 2), 10),
                       ((period, i, choices student_dict ! 3), 1)])
                    (period_student_pairs students))"
    unfolding objective_function_parts_def
  proof (rule for_each_map)
    fix x assume mem: "x \<in> set (period_student_pairs students)"
    obtain period i st where x: "x = (period, i, st)"
      by (cases x) auto
    from mem have "i < length students" "st = students ! i"
      by (simp_all add: x in_period_student_pairs)
    with assms have "length (choices st) = 4" by simp
    then show "(case x of (period, i, student_dict) \<Rightarrow>
                  objective_function_part period i (choices student_dict)) =
        Inr (case x of (period, i, student_dict) \<Rightarrow>
                      [((period, i, choices student_dict ! 0), 1000),
                       ((period, i, choices student_dict ! 1), 100),
                       ((period, i, choices student_dict ! 2), 10),
                       ((period, i, choices student_dict ! 3), 1)])"
      by (simp add: x objective_function_part_eq)
  qed
  then show ?thesis by (simp add: prob_def)
qed

lemma loaded_choices_length:
  assumes "student_info_dicts student_choice_data = Inr students"
  shows "\<forall>st\<in>set students. length (choices st) = 4"
    and "\<forall>st\<in>set students. length (choices_full_names st) = 4"
  using student_info_dict_rank [OF loaded_nth [OF assms]]
  by (auto simp: in_set_conv_nth)

lemma loaded_prob:
  assumes "student_info_dicts student_choice_data = Inr students"
  shows "\<exists>p. prob students = Inr p"
  using prob_eq [OF loaded_choices_length(1) [OF assms]] by blast

subsection \<open>The school of 55 students\<close>

lemma activity_id_nth: "n < NUM_ACTIVITIES \<Longrightarrow> activity_id (ACTIVITIES_LIST ! n) = Inr n"
  by (simp add: activity_id_Inr)

lemma example_row_loads: "student_info_dict (example_row i) = Inr (example_student i)"
  by (simp add: example_row_def example_student_def example_choices_def
      activity_id_nth NUM_ACTIVITIES_eq)

lemma example_loads: "student_info_dicts example_data = Inr example_students"
  unfolding student_info_dicts_def example_data_def example_students_def
  by (rule for_each_Inr_I) (simp add: list_all2_conv_all_nth example_row_loads)

lemma length_example_students: "length example_students = 55"
  by (simp add: example_students_def)

lemma example_students_nth: "i < 55 \<Longrightarrow> example_students ! i = example_student i"
  by (simp add: example_students_def)

lemma example_prob: "prob example_students = Inr example_prob"
  using prob_eq [OF loaded_choices_length(1) [OF example_loads]]
  by (simp add: example_prob_def length_example_students)

lemma sum_list_delta:
  "(\<Sum>j\<leftarrow>[0..<n]. if j = k then 1 else 0) = (if k < n then 1 else (0::int))"
  by (induction n) auto

lemma filter_eq_upt: "filter (\<lambda>j. j = k) [0..<n] = (if k < n then [k] else [])"
  by (induction n) auto

lemma example_varValue_apply:
  "example_varValue (period, i, j) = (if j = (i + period) mod 11 then 1 else 0)"
  by (simp add: example_varValue_def)

lemma shifted_mod_11:
  fixes i :: nat
  shows "(i + 1) mod 11 \<noteq> i mod 11" "(i + 2) mod 11 \<noteq> i mod 11" "(i + 3) mod 11 \<noteq> i mod 11"
    "(i + 2) mod 11 \<noteq> (i + 1) mod 11" "(i + 3) mod 11 \<noteq> (i + 1) mod 11"
    "(i + 3) mod 11 \<noteq> (i + 2) mod 11"
  by (auto simp: numeral_3_eq_3 numeral_2_eq_2 mod_Suc)

lemma example_constraint_1:
  "(\<Sum>j\<leftarrow>[0..<NUM_ACTIVITIES]. example_varValue (period, i, j)) = 1"
  by (simp add: example_varValue_apply sum_list_delta NUM_ACTIVITIES_eq)

lemma example_constraint_2:
  "(\<Sum>period\<leftarrow>[0..<NUM_PERIODS]. example_varValue (period, i, j)) \<le> 1"
  using shifted_mod_11 [of i]
  by (auto simp: example_varValue_apply upt_NUM_PERIODS)

lemma example_constraint_5:
  "(\<Sum>period\<leftarrow>[0..<NUM_PERIODS]. \<Sum>j\<leftarrow>example_choices i. example_varValue (period, i, j)) = 3"
  using shifted_mod_11 [of i] shifted_mod_11 [of i, symmetric]
  by (simp add: upt_NUM_PERIODS example_choices_def example_varValue_apply)

lemma upt_11: "[0..<11] = [0, 1, 2, 3, 4, 5, 6, 7, 8, 9, 10]"
  by (simp add: upt_rec)

lemma less_11:
  "(j::nat) < 11 \<longleftrightarrow> j = 0 \<or> j = 1 \<or> j = 2 \<or> j = 3 \<or> j = 4 \<or> j = 5 \<or> j = 6 \<or>
      j = 7 \<or> j = 8 \<or> j = 9 \<or> j = 10"
  by arith

lemma sum_list_one_period:
  assumes "j < 11" "period < NUM_PERIODS"
  shows "(\<Sum>t\<leftarrow>[0..<11]. if j = (t + period) mod 11 then 1 else 0) = (1::int)"
  using assms unfolding less_11 less_NUM_PERIODS upt_11
  by (elim disjE) simp_all

lemma example_count_periods:
  assumes "j < 11" "period < NUM_PERIODS"
  shows "(\<Sum>i\<leftarrow>[0..<11 * k]. example_varValue (period, i, j)) = int k"
proof (induction k)
  case 0
  show ?case by simp
next
  case (Suc k)
  have split: "[0..<11 * Suc k] = [0..<11 * k] @ map (\<lambda>t. t + 11 * k) [0..<11]"
    using upt_add_eq_append [of 0 "11 * k" 11] by (simp add: map_add_upt add.commute)
  have step: "example_varValue (period, t + 11 * k, j) =
      (if j = (t + period) mod 11 then 1 else 0)" for t
  proof -
    have "t + 11 * k + period = (t + period) + 11 * k" by simp
    then have "(t + 11 * k + period) mod 11 = (t + period) mod 11"
      by (simp only: mod_mult_self2)
    then show ?thesis by (simp only: example_varValue_apply)
  qed
  have "(\<Sum>i\<leftarrow>map (\<lambda>t. t + 11 * k) [0..<11]. example_varValue (period, i, j)) =
        (\<Sum>t\<leftarrow>[0..<11]. if j = (t + period) mod 11 then 1 else 0)"
    by (simp only: map_map comp_def step)
  also have "\<dots> = 1" by (rule sum_list_one_period [OF assms])
  finally show ?case
    unfolding split by (simp add: Suc.IH)
qed

lemma example_count:
  assumes "j < NUM_ACTIVITIES" "period < NUM_PERIODS"
  shows "(\<Sum>i\<leftarrow>[0..<55]. example_varValue (period, i, j)) = 5"
  using example_count_periods [where j = j and k = 5 and period = period] assms
  by (simp add: NUM_ACTIVITIES_eq)

lemma example_feasible: "feasible example_prob example_varValue"
proof -
  have bin: "example_varValue (period, i, j) = 0 \<or> example_varValue (period, i, j) = 1"
    for period i j
    by (simp add: example_varValue_apply)
  show ?thesis
    unfolding feasible_prob_iff [OF example_prob] length_example_students
    by (simp add: bin example_constraint_1 example_constraint_2 example_constraint_5
        example_count example_students_nth example_student_def
        MIN_NUM_IN_ACTIVITY_def MAX_NUM_IN_ACTIVITY_def)
qed

lemma example_period_assignment:
  "period_assignment example_varValue period i = [ACTIVITIES_LIST ! ((i + period) mod 11)]"
proof -
  have "filter (\<lambda>j. example_varValue (period, i, j) = 1) [0..<NUM_ACTIVITIES] =
        filter (\<lambda>j. j = (i + period) mod 11) [0..<NUM_ACTIVITIES]"
    by (rule filter_cong) (simp_all add: example_varValue_apply)
  then show ?thesis
    by (simp add: period_assignment_def filter_eq_upt NUM_ACTIVITIES_eq)
qed

lemma example_extract:
  "extract_solution example_varValue example_students = Inr example_extracted"
  unfolding extract_solution_eq example_extracted_def length_example_students
  by (simp add: upt_NUM_PERIODS example_period_assignment example_students_nth
      example_student_def example_assignments_def)

lemma example_results:
  "results example_extracted = Inr (data_rows example_output)"
  unfolding results_def example_extracted_def example_output_def
  by (rule for_each_Inr_I)
     (simp add: list_all2_conv_all_nth example_student_def example_choices_def
       example_assignments_def)

lemma example_assignment_outputs:
  "assignment_outputs example_data example_solve = Inr (example_output, example_extracted)"
  using example_results
  by (simp add: assignment_outputs_def example_loads example_prob example_solve_def
      check_solution_found_def example_extract example_output_def)

lemma results_length: "results students = Inr rows \<Longrightarrow> length rows = length students"
  by (simp add: results_def for_each_length)

subsection \<open>Consequences of feasibility for the extracted assignments\<close>

lemma feasible_binary:
  assumes "prob students = Inr p" "feasible p varValue"
    and "period < NUM_PERIODS" "i < length students" "j < NUM_ACTIVITIES"
  shows "varValue (period, i, j) = 0 \<or> varValue (period, i, j) = 1"
  using assms by (simp add: feasible_prob_iff)

lemma feasible_no_repeat:
  assumes "prob students = Inr p" "feasible p varValue"
    and "i < length students" "j < NUM_ACTIVITIES"
  shows "varValue (0, i, j) + varValue (1, i, j) + varValue (2, i, j) \<le> 1"
proof -
  from assms have "(\<Sum>period\<leftarrow>[0..<NUM_PERIODS]. varValue (period, i, j)) \<le> 1"
    by (simp add: feasible_prob_iff)
  then show ?thesis by (simp add: upt_NUM_PERIODS)
qed

lemma feasible_assignments_distinct:
  assumes "student_info_dicts student_choice_data = Inr students"
    and "prob students = Inr p" "feasible p varValue"
    and "extract_solution varValue students = Inr students'"
    and "i < length students"
  obtains j0 j1 j2 where
    "assignments (students' ! i) =
       [ACTIVITIES_LIST ! j0, ACTIVITIES_LIST ! j1, ACTIVITIES_LIST ! j2]"
    "j0 < NUM_ACTIVITIES" "j1 < NUM_ACTIVITIES" "j2 < NUM_ACTIVITIES"
    "\<forall>j<NUM_ACTIVITIES. varValue (0, i, j) = (if j = j0 then 1 else 0)"
    "\<forall>j<NUM_ACTIVITIES. varValue (1, i, j) = (if j = j1 then 1 else 0)"
    "\<forall>j<NUM_ACTIVITIES. varValue (2, i, j) = (if j = j2 then 1 else 0)"
    "j0 \<noteq> j1" "j0 \<noteq> j2" "j1 \<noteq> j2"
proof -
  obtain j0 j1 j2 where j:
    "assignments (students' ! i) =
       [ACTIVITIES_LIST ! j0, ACTIVITIES_LIST ! j1, ACTIVITIES_LIST ! j2]"
    "j0 < NUM_ACTIVITIES" "j1 < NUM_ACTIVITIES" "j2 < NUM_ACTIVITIES"
    "\<forall>j<NUM_ACTIVITIES. varValue (0, i, j) = 1 \<longleftrightarrow> j = j0"
    "\<forall>j<NUM_ACTIVITIES. varValue (1, i, j) = 1 \<longleftrightarrow> j = j1"
    "\<forall>j<NUM_ACTIVITIES. varValue (2, i, j) = 1 \<longleftrightarrow> j = j2"
    by (rule feasible_assignments [OF assms])
  have p: "0 < NUM_PERIODS" "1 < NUM_PERIODS" "2 < NUM_PERIODS"
    by (simp_all add: NUM_PERIODS_def)
  have v0: "\<forall>j<NUM_ACTIVITIES. varValue (0, i, j) = (if j = j0 then 1 else 0)"
    using feasible_binary [OF assms(2,3) p(1) assms(5)] j(5) by auto
  have v1: "\<forall>j<NUM_ACTIVITIES. varValue (1, i, j) = (if j = j1 then 1 else 0)"
    using feasible_binary [OF assms(2,3) p(2) assms(5)] j(6) by auto
  have v2: "\<forall>j<NUM_ACTIVITIES. varValue (2, i, j) = (if j = j2 then 1 else 0)"
    using feasible_binary [OF assms(2,3) p(3) assms(5)] j(7) by auto
  have "j0 \<noteq> j1"
    using feasible_no_repeat [OF assms(2,3,5) j(2)] v0 v1 v2 j(2) by (auto split: if_splits)
  moreover have "j0 \<noteq> j2"
    using feasible_no_repeat [OF assms(2,3,5) j(2)] v0 v1 v2 j(2) by (auto split: if_splits)
  moreover have "j1 \<noteq> j2"
    using feasible_no_repeat [OF assms(2,3,5) j(3)] v0 v1 v2 j(3) by (auto split: if_splits)
  ultimately show thesis
    using that [of j0 j1 j2] j(1-4) v0 v1 v2 by blast
qed

lemma feasible_assignment_iff:
  assumes "student_info_dicts student_choice_data = Inr students"
    and "prob students = Inr p" "feasible p varValue"
    and "extract_solution varValue students = Inr students'"
    and "period < NUM_PERIODS" "i < length students" "j < NUM_ACTIVITIES"
  shows "assignments (students' ! i) ! period = ACTIVITIES_LIST ! j \<longleftrightarrow>
         varValue (period, i, j) = 1"
proof -
  obtain j0 j1 j2 where j:
    "assignments (students' ! i) =
       [ACTIVITIES_LIST ! j0, ACTIVITIES_LIST ! j1, ACTIVITIES_LIST ! j2]"
    "j0 < NUM_ACTIVITIES" "j1 < NUM_ACTIVITIES" "j2 < NUM_ACTIVITIES"
    "\<forall>j<NUM_ACTIVITIES. varValue (0, i, j) = 1 \<longleftrightarrow> j = j0"
    "\<forall>j<NUM_ACTIVITIES. varValue (1, i, j) = 1 \<longleftrightarrow> j = j1"
    "\<forall>j<NUM_ACTIVITIES. varValue (2, i, j) = 1 \<longleftrightarrow> j = j2"
    by (rule feasible_assignments [OF assms(1-4,6)])
  from assms(5) consider "period = 0" | "period = 1" | "period = 2"
    by (auto simp: less_NUM_PERIODS)
  then show ?thesis
  proof cases
    case 1
    with j(1,2,5) assms(7) show ?thesis by (auto simp: activities_nth_inj)
  next
    case 2
    with j(1,3,6) assms(7) show ?thesis by (auto simp: activities_nth_inj)
  next
    case 3
    with j(1,4,7) assms(7) show ?thesis by (auto simp: activities_nth_inj)
  qed
qed

lemma feasible_got_choice:
  assumes "student_info_dicts student_choice_data = Inr students"
    and "prob students = Inr p" "feasible p varValue"
    and "extract_solution varValue students = Inr students'"
    and "i < length students" "n < NUM_ACTIVITIES"
  shows "int (got_choice (ACTIVITIES_LIST ! n) (assignments (students' ! i))) =
         varValue (0, i, n) + varValue (1, i, n) + varValue (2, i, n)"
proof -
  obtain j0 j1 j2 where j:
    "assignments (students' ! i) =
       [ACTIVITIES_LIST ! j0, ACTIVITIES_LIST ! j1, ACTIVITIES_LIST ! j2]"
    "j0 < NUM_ACTIVITIES" "j1 < NUM_ACTIVITIES" "j2 < NUM_ACTIVITIES"
    "\<forall>j<NUM_ACTIVITIES. varValue (0, i, j) = (if j = j0 then 1 else 0)"
    "\<forall>j<NUM_ACTIVITIES. varValue (1, i, j) = (if j = j1 then 1 else 0)"
    "\<forall>j<NUM_ACTIVITIES. varValue (2, i, j) = (if j = j2 then 1 else 0)"
    "j0 \<noteq> j1" "j0 \<noteq> j2" "j1 \<noteq> j2"
    by (rule feasible_assignments_distinct [OF assms(1-5)])
  from j(5-7) assms(6) have v: "varValue (0, i, n) = (if n = j0 then 1 else 0)"
    "varValue (1, i, n) = (if n = j1 then 1 else 0)"
    "varValue (2, i, n) = (if n = j2 then 1 else 0)"
    by simp_all
  show ?thesis
    unfolding v j(1) got_choice_def
    using j(2-4,8-10) assms(6) by (auto simp: activities_nth_inj)
qed

lemma constraint_1_mem:
  "period < NUM_PERIODS \<Longrightarrow> i < n \<Longrightarrow> constraint_1 period i \<in> set (constraints_1 n)"
  by (force simp: constraints_1_def)

lemma constraint_2_mem:
  "i < n \<Longrightarrow> j < NUM_ACTIVITIES \<Longrightarrow> constraint_2 i j \<in> set (constraints_2 n)"
  by (force simp: constraints_2_def)

lemma constraint_3_mem:
  "period < NUM_PERIODS \<Longrightarrow> j < NUM_ACTIVITIES \<Longrightarrow>
     constraint_3 n period j \<in> set (constraints_3 n)"
  by (force simp: constraints_3_def)

lemma constraint_4_mem:
  "period < NUM_PERIODS \<Longrightarrow> j < NUM_ACTIVITIES \<Longrightarrow>
     constraint_4 n period j \<in> set (constraints_4 n)"
  by (force simp: constraints_4_def)

lemma constraint_5_mem:
  "i < length students \<Longrightarrow> constraint_5 i (students ! i) \<in> set (constraints_5 students)"
  by (force simp: constraints_5_def in_set_enumerate_eq)

lemma sum_got_choice_filter:
  "(\<Sum>c\<leftarrow>cs. got_choice c as) = length (filter (\<lambda>c. c \<in> set as) cs)"
  by (induction cs) (auto simp: got_choice_def)

lemma feasible_three_of_four:
  assumes "student_info_dicts student_choice_data = Inr students"
    and "prob students = Inr p" "feasible p varValue"
    and "extract_solution varValue students = Inr students'"
    and "i < length students"
  shows "length (choices_full_names (students' ! i)) = 4"
    and "(\<Sum>c\<leftarrow>choices_full_names (students' ! i).
            got_choice c (assignments (students' ! i))) = 3"
proof -
  obtain first_name last_name c1 c2 c3 c4 n1 n2 n3 n4 where
    st: "students ! i = \<lparr>choices = [n1, n2, n3, n4], choices_full_names = [c1, c2, c3, c4],
           name = last_name @ '', '' @ first_name, assignments = []\<rparr>"
    and n: "n1 < NUM_ACTIVITIES" "n2 < NUM_ACTIVITIES" "n3 < NUM_ACTIVITIES"
      "n4 < NUM_ACTIVITIES"
    and c: "c1 = ACTIVITIES_LIST ! n1" "c2 = ACTIVITIES_LIST ! n2"
      "c3 = ACTIVITIES_LIST ! n3" "c4 = ACTIVITIES_LIST ! n4"
    using student_info_dict_Inr [OF loaded_nth [OF assms(1,5)]] by metis
  have names: "choices_full_names (students' ! i) = [c1, c2, c3, c4]"
    by (simp add: loaded_assignments(3) [OF assms(1,5,4)] st)
  show "length (choices_full_names (students' ! i)) = 4"
    by (simp add: names)
  from assms(2,3,5)
  have "(\<Sum>period\<leftarrow>[0..<NUM_PERIODS]. \<Sum>j\<leftarrow>choices (students ! i).
            varValue (period, i, j)) = 3"
    by (simp add: feasible_prob_iff)
  then have three: "varValue (0, i, n1) + varValue (1, i, n1) + varValue (2, i, n1) +
      (varValue (0, i, n2) + varValue (1, i, n2) + varValue (2, i, n2)) +
      (varValue (0, i, n3) + varValue (1, i, n3) + varValue (2, i, n3)) +
      (varValue (0, i, n4) + varValue (1, i, n4) + varValue (2, i, n4)) = 3"
    by (simp add: upt_NUM_PERIODS st)
  have "int (\<Sum>c\<leftarrow>choices_full_names (students' ! i).
            got_choice c (assignments (students' ! i))) = 3"
    unfolding names c
    using three
    by (simp add: feasible_got_choice [OF assms(1-5)] n)
  then show "(\<Sum>c\<leftarrow>choices_full_names (students' ! i).
            got_choice c (assignments (students' ! i))) = 3"
    by linarith
qed

subsection \<open>The sanity check\<close>

lemma sanity_check_student_eq:
  "length cs = 4 \<Longrightarrow> sanity_check_student t cs as =
     Inr \<lparr>total_got_choice1 = total_got_choice1 t + got_choice (cs ! 0) as,
          total_got_choice2 = total_got_choice2 t + got_choice (cs ! 1) as,
          total_got_choice3 = total_got_choice3 t + got_choice (cs ! 2) as,
          total_got_choice4 = total_got_choice4 t + got_choice (cs ! 3) as,
          total_got_3_of_4 = total_got_3_of_4 t +
            (if (\<Sum>c\<leftarrow>cs. got_choice c as) = 3 then 1 else 0)\<rparr>"
  by (cases "(t, cs, as)" rule: sanity_check_student.cases) auto

lemma sanity_check_loop_eq:
  "\<forall>st\<in>set students. length (choices_full_names st) = 4 \<Longrightarrow>
   sanity_check_loop t students =
     Inr \<lparr>total_got_choice1 = total_got_choice1 t +
            (\<Sum>st\<leftarrow>students. got_choice (choices_full_names st ! 0) (assignments st)),
          total_got_choice2 = total_got_choice2 t +
            (\<Sum>st\<leftarrow>students. got_choice (choices_full_names st ! 1) (assignments st)),
          total_got_choice3 = total_got_choice3 t +
            (\<Sum>st\<leftarrow>students. got_choice (choices_full_names st ! 2) (assignments st)),
          total_got_choice4 = total_got_choice4 t +
            (\<Sum>st\<leftarrow>students. got_choice (choices_full_names st ! 3) (assignments st)),
          total_got_3_of_4 = total_got_3_of_4 t +
            length (filter (\<lambda>st. (\<Sum>c\<leftarrow>choices_full_names st.
                                     got_choice c (assignments st)) = 3) students)\<rparr>"
proof (induction students arbitrary: t)
  case Nil
  show ?case by simp
next
  case (Cons st students)
  then show ?case
    by (simp add: sanity_check_student_eq)
qed

lemma sanity_check_eq:
  assumes "\<forall>st\<in>set students. length (choices_full_names st) = 4"
  shows "sanity_check students =
     Inr \<lparr>total_got_choice1 =
            (\<Sum>st\<leftarrow>students. got_choice (choices_full_names st ! 0) (assignments st)),
          total_got_choice2 =
            (\<Sum>st\<leftarrow>students. got_choice (choices_full_names st ! 1) (assignments st)),
          total_got_choice3 =
            (\<Sum>st\<leftarrow>students. got_choice (choices_full_names st ! 2) (assignments st)),
          total_got_choice4 =
            (\<Sum>st\<leftarrow>students. got_choice (choices_full_names st ! 3) (assignments st)),
          total_got_3_of_4 =
            length (filter (\<lambda>st. length (filter (\<lambda>c. c \<in> set (assignments st))
                                          (choices_full_names st)) = 3) students)\<rparr>"
  unfolding sanity_check_def
  by (simp add: sanity_check_loop_eq [OF assms] sum_got_choice_filter)

lemma print_report_3_of_4:
  assumes "0 < n" "total_got_3_of_4 t = n"
  shows "\<exists>r. print_report t n = Inr r \<and> percent_3_of_4 r = 100"
  using assms by (simp add: print_report_def percent_def)

lemma feasible_students_exist:
  assumes "prob students = Inr p" "feasible p varValue"
  shows "0 < length students"
proof (rule ccontr)
  assume "\<not> 0 < length students"
  then have "length students = 0" by simp
  moreover from assms
  have "MIN_NUM_IN_ACTIVITY \<le> (\<Sum>i\<leftarrow>[0..<length students]. varValue (0, i, 0))"
    by (simp add: feasible_prob_iff NUM_PERIODS_def NUM_ACTIVITIES_eq)
  ultimately show False by (simp add: MIN_NUM_IN_ACTIVITY_def)
qed

lemma feasible_run:
  assumes "student_info_dicts student_choice_data = Inr students"
    and "prob students = Inr p" "solve p = (1, varValue)" "feasible p varValue"
  obtains students' rows where
    "extract_solution varValue students = Inr students'"
    "results students' = Inr rows"
    "assignment_outputs student_choice_data solve =
       Inr (\<lparr>header_row = headers, data_rows = rows\<rparr>, students')"
    "length students' = length students"
    "\<forall>st\<in>set students'. length (choices_full_names st) = 4"
    "\<forall>st\<in>set students'. length (assignments st) = 3"
proof -
  obtain students' where ext: "extract_solution varValue students = Inr students'"
    by (simp add: extract_solution_eq)
  have len: "length students' = length students"
    by (rule extract_solution_length [OF ext])
  have names: "\<forall>st\<in>set students'. length (choices_full_names st) = 4"
    using feasible_three_of_four(1) [OF assms(1,2,4) ext] len
    by (auto simp: in_set_conv_nth)
  have three: "\<forall>st\<in>set students'. length (assignments st) = 3"
  proof
    fix st assume "st \<in> set students'"
    then obtain i where i: "i < length students" "students' ! i = st"
      using len by (auto simp: in_set_conv_nth)
    obtain j0 j1 j2 where "assignments (students' ! i) =
       [ACTIVITIES_LIST ! j0, ACTIVITIES_LIST ! j1, ACTIVITIES_LIST ! j2]"
      by (rule feasible_assignments [OF assms(1,2,4) ext i(1)])
    with i(2) show "length (assignments st) = 3" by simp
  qed
  from results_Inr_iff [OF names] three
  obtain rows where rows: "results students' = Inr rows" by blast
  have out: "assignment_outputs student_choice_data solve =
       Inr (\<lparr>header_row = headers, data_rows = rows\<rparr>, students')"
    by (simp add: assignment_outputs_def assms(1-3) check_solution_found_def ext rows)
  show thesis
    by (rule that [OF ext rows out len names three])
qed

section \<open>The claims\<close>

text \<open>
  C10. In every run that reaches the writing of the output file, the header row has 9
  column names, the last of them \<open>assignment4\<close>, while every data row has exactly 8 fields:
  the header row is one column longer than every data row.
\<close>

theorem header_one_column_longer_than_rows:
  assumes "assignment_outputs student_choice_data solve = Inr (out, students')"
  shows "length (header_row out) = 9 \<and> header_row out ! 8 = ''assignment4'' \<and>
         (\<forall>row\<in>set (data_rows out). length row = 8 \<and> length (header_row out) = length row + 1)"
proof -
  from assms obtain rows where rows: "results students' = Inr rows"
    and out: "out = \<lparr>header_row = headers, data_rows = rows\<rparr>"
    by (rule assignment_outputs_Inr)
  have "length row = 8" if "row \<in> set rows" for row
  proof -
    from that obtain i where i: "i < length rows" "rows ! i = row"
      by (auto simp: in_set_conv_nth)
    with results_length [OF rows] have "i < length students'" by simp
    from results_nth(2-4) [OF rows this] i show ?thesis by simp
  qed
  then show ?thesis
    by (simp add: out headers_def)
qed

theorem header_one_column_longer_than_rows_witness:
  "assignment_outputs example_data example_solve = Inr (example_output, example_extracted) \<and>
   length (header_row example_output) = 9 \<and>
   header_row example_output ! 8 = ''assignment4'' \<and>
   length (data_rows example_output ! 0) = 8 \<and>
   length (header_row example_output) = length (data_rows example_output ! 0) + 1"
proof -
  have "data_rows example_output ! 0 \<in> set (data_rows example_output)"
    by (rule nth_mem) (simp add: example_output_def)
  with header_one_column_longer_than_rows [OF example_assignment_outputs]
  show ?thesis
    using example_assignment_outputs by blast
qed

text \<open>
  C3. For every period and every student the built problem contains the equality
  constraint that the sum over all activities of the student's variables in that period
  is 1; hence in every feasible (in particular every optimal) solution exactly one
  activity has the value 1 for the student in the period, and the extraction gives the
  student one assignment per period, the name of that activity.
\<close>

theorem one_activity_per_period:
  assumes "student_info_dicts student_choice_data = Inr students"
    and "prob students = Inr p"
  shows "\<forall>period<NUM_PERIODS. \<forall>i<length students.
     constraint_1 period i \<in> set (constraints p) \<and>
     rel (constraint_1 period i) = LpConstraintEQ \<and>
     rhs (constraint_1 period i) = 1 \<and>
     (\<forall>varValue. expr_value varValue (lhs (constraint_1 period i)) =
        (\<Sum>j\<leftarrow>[0..<NUM_ACTIVITIES]. varValue (period, i, j))) \<and>
     (\<forall>varValue students'.
        feasible p varValue \<longrightarrow> extract_solution varValue students = Inr students' \<longrightarrow>
        (\<exists>j<NUM_ACTIVITIES.
           (\<forall>j'<NUM_ACTIVITIES. varValue (period, i, j') = 1 \<longleftrightarrow> j' = j) \<and>
           length (assignments (students' ! i)) = NUM_PERIODS \<and>
           assignments (students' ! i) ! period = ACTIVITIES_LIST ! j))"
proof (intro allI impI conjI)
  fix period i
  assume period: "period < NUM_PERIODS" and i: "i < length students"
  show "constraint_1 period i \<in> set (constraints p)"
    using period i by (simp add: prob_fields(3) [OF assms(2)] constraint_1_mem)
  show "rel (constraint_1 period i) = LpConstraintEQ" "rhs (constraint_1 period i) = 1"
    by (simp_all add: constraint_1_def)
  show "expr_value varValue (lhs (constraint_1 period i)) =
        (\<Sum>j\<leftarrow>[0..<NUM_ACTIVITIES]. varValue (period, i, j))" for varValue
    by (simp add: constraint_1_def expr_value_lpSum comp_def)
  fix varValue students'
  assume feas: "feasible p varValue"
    and ext: "extract_solution varValue students = Inr students'"
  obtain j where j: "j < NUM_ACTIVITIES" "varValue (period, i, j) = 1"
    "\<forall>j'<NUM_ACTIVITIES. varValue (period, i, j') = 1 \<longrightarrow> j' = j"
    "period_assignment varValue period i = [ACTIVITIES_LIST ! j]"
    by (rule feasible_one_activity [OF assms(2) feas period i])
  obtain j0 j1 j2 where "assignments (students' ! i) =
       [ACTIVITIES_LIST ! j0, ACTIVITIES_LIST ! j1, ACTIVITIES_LIST ! j2]"
    by (rule feasible_assignments [OF assms feas ext i])
  then have len: "length (assignments (students' ! i)) = NUM_PERIODS"
    by (simp add: NUM_PERIODS_def)
  have "assignments (students' ! i) ! period = ACTIVITIES_LIST ! j"
    using feasible_assignment_iff [OF assms feas ext period i j(1)] j(2) by simp
  with j(1-3) len show "\<exists>j<NUM_ACTIVITIES.
           (\<forall>j'<NUM_ACTIVITIES. varValue (period, i, j') = 1 \<longleftrightarrow> j' = j) \<and>
           length (assignments (students' ! i)) = NUM_PERIODS \<and>
           assignments (students' ! i) ! period = ACTIVITIES_LIST ! j"
    by blast
qed

theorem one_activity_per_period_witness:
  "student_info_dicts example_data = Inr example_students \<and>
   prob example_students = Inr example_prob \<and>
   feasible example_prob example_varValue \<and>
   extract_solution example_varValue example_students = Inr example_extracted \<and>
   constraint_1 1 7 \<in> set (constraints example_prob) \<and>
   (\<exists>j<NUM_ACTIVITIES.
      example_varValue (1, 7, j) = 1 \<and>
      length (assignments (example_extracted ! 7)) = NUM_PERIODS \<and>
      assignments (example_extracted ! 7) ! 1 = ACTIVITIES_LIST ! j)"
proof -
  have "1 < NUM_PERIODS" "7 < length example_students"
    by (simp_all add: NUM_PERIODS_def length_example_students)
  with one_activity_per_period [OF example_loads example_prob]
  have "constraint_1 1 7 \<in> set (constraints example_prob) \<and>
     (\<forall>varValue students'.
        feasible example_prob varValue \<longrightarrow>
        extract_solution varValue example_students = Inr students' \<longrightarrow>
        (\<exists>j<NUM_ACTIVITIES.
           (\<forall>j'<NUM_ACTIVITIES. varValue (1, 7, j') = 1 \<longleftrightarrow> j' = j) \<and>
           length (assignments (students' ! 7)) = NUM_PERIODS \<and>
           assignments (students' ! 7) ! 1 = ACTIVITIES_LIST ! j))"
    by blast
  with example_feasible example_extract example_loads example_prob
  show ?thesis by blast
qed

text \<open>
  C4. For every student and every activity the built problem contains the constraint
  that the sum over all periods of the student's variables for that activity is at most
  1; hence in every feasible (in particular every optimal) solution no activity appears
  more than once in the list of assignments the extraction gives the student.
\<close>

theorem no_activity_repeated:
  assumes "student_info_dicts student_choice_data = Inr students"
    and "prob students = Inr p"
  shows "\<forall>i<length students.
     (\<forall>j<NUM_ACTIVITIES.
        constraint_2 i j \<in> set (constraints p) \<and>
        rel (constraint_2 i j) = LpConstraintLE \<and>
        rhs (constraint_2 i j) = 1 \<and>
        (\<forall>varValue. expr_value varValue (lhs (constraint_2 i j)) =
           (\<Sum>period\<leftarrow>[0..<NUM_PERIODS]. varValue (period, i, j)))) \<and>
     (\<forall>varValue students'.
        feasible p varValue \<longrightarrow> extract_solution varValue students = Inr students' \<longrightarrow>
        distinct (assignments (students' ! i)))"
proof (intro allI impI conjI)
  fix i j
  assume i: "i < length students" and j: "j < NUM_ACTIVITIES"
  show "constraint_2 i j \<in> set (constraints p)"
    using i j by (simp add: prob_fields(3) [OF assms(2)] constraint_2_mem)
  show "rel (constraint_2 i j) = LpConstraintLE" "rhs (constraint_2 i j) = 1"
    by (simp_all add: constraint_2_def)
  show "expr_value varValue (lhs (constraint_2 i j)) =
        (\<Sum>period\<leftarrow>[0..<NUM_PERIODS]. varValue (period, i, j))" for varValue
    by (simp add: constraint_2_def expr_value_lpSum comp_def)
next
  fix i varValue students'
  assume i: "i < length students" and feas: "feasible p varValue"
    and ext: "extract_solution varValue students = Inr students'"
  obtain j0 j1 j2 where j:
    "assignments (students' ! i) =
       [ACTIVITIES_LIST ! j0, ACTIVITIES_LIST ! j1, ACTIVITIES_LIST ! j2]"
    "j0 < NUM_ACTIVITIES" "j1 < NUM_ACTIVITIES" "j2 < NUM_ACTIVITIES"
    "\<forall>j<NUM_ACTIVITIES. varValue (0, i, j) = (if j = j0 then 1 else 0)"
    "\<forall>j<NUM_ACTIVITIES. varValue (1, i, j) = (if j = j1 then 1 else 0)"
    "\<forall>j<NUM_ACTIVITIES. varValue (2, i, j) = (if j = j2 then 1 else 0)"
    "j0 \<noteq> j1" "j0 \<noteq> j2" "j1 \<noteq> j2"
    by (rule feasible_assignments_distinct [OF assms feas ext i])
  show "distinct (assignments (students' ! i))"
    using j(2-4,8-10) by (simp add: j(1) activities_nth_inj)
qed

theorem no_activity_repeated_witness:
  "student_info_dicts example_data = Inr example_students \<and>
   prob example_students = Inr example_prob \<and>
   feasible example_prob example_varValue \<and>
   extract_solution example_varValue example_students = Inr example_extracted \<and>
   constraint_2 7 4 \<in> set (constraints example_prob) \<and>
   distinct (assignments (example_extracted ! 7))"
proof -
  have "4 < NUM_ACTIVITIES" "7 < length example_students"
    by (simp_all add: NUM_ACTIVITIES_eq length_example_students)
  with no_activity_repeated [OF example_loads example_prob]
  have "constraint_2 7 4 \<in> set (constraints example_prob) \<and>
     (\<forall>varValue students'.
        feasible example_prob varValue \<longrightarrow>
        extract_solution varValue example_students = Inr students' \<longrightarrow>
        distinct (assignments (students' ! 7)))"
    by blast
  with example_feasible example_extract example_loads example_prob
  show ?thesis by blast
qed

text \<open>
  C5. For every period and every activity the built problem contains the two capacity
  constraints: the sum over all students of the variables of that activity in that
  period is at least \<open>MIN_NUM_IN_ACTIVITY\<close> and at most \<open>MAX_NUM_IN_ACTIVITY\<close>; hence in
  every feasible (in particular every optimal) solution the number of students whose
  assignment in the period is the activity lies between the two bounds.
\<close>

theorem activity_sizes_within_bounds:
  assumes "student_info_dicts student_choice_data = Inr students"
    and "prob students = Inr p"
  shows "\<forall>period<NUM_PERIODS. \<forall>j<NUM_ACTIVITIES.
     constraint_3 (length students) period j \<in> set (constraints p) \<and>
     rel (constraint_3 (length students) period j) = LpConstraintGE \<and>
     rhs (constraint_3 (length students) period j) = MIN_NUM_IN_ACTIVITY \<and>
     constraint_4 (length students) period j \<in> set (constraints p) \<and>
     rel (constraint_4 (length students) period j) = LpConstraintLE \<and>
     rhs (constraint_4 (length students) period j) = MAX_NUM_IN_ACTIVITY \<and>
     (\<forall>varValue.
        expr_value varValue (lhs (constraint_3 (length students) period j)) =
          (\<Sum>i\<leftarrow>[0..<length students]. varValue (period, i, j)) \<and>
        expr_value varValue (lhs (constraint_4 (length students) period j)) =
          (\<Sum>i\<leftarrow>[0..<length students]. varValue (period, i, j))) \<and>
     (\<forall>varValue students'.
        feasible p varValue \<longrightarrow> extract_solution varValue students = Inr students' \<longrightarrow>
        MIN_NUM_IN_ACTIVITY \<le>
          int (length (filter (\<lambda>i. assignments (students' ! i) ! period = ACTIVITIES_LIST ! j)
                 [0..<length students])) \<and>
        int (length (filter (\<lambda>i. assignments (students' ! i) ! period = ACTIVITIES_LIST ! j)
                 [0..<length students])) \<le> MAX_NUM_IN_ACTIVITY)"
proof (intro allI impI)
  fix period j
  assume period: "period < NUM_PERIODS" and j: "j < NUM_ACTIVITIES"
  have mem: "constraint_3 (length students) period j \<in> set (constraints p)"
    "constraint_4 (length students) period j \<in> set (constraints p)"
    using period j
    by (simp_all add: prob_fields(3) [OF assms(2)] constraint_3_mem constraint_4_mem)
  have shape: "rel (constraint_3 (length students) period j) = LpConstraintGE"
    "rhs (constraint_3 (length students) period j) = MIN_NUM_IN_ACTIVITY"
    "rel (constraint_4 (length students) period j) = LpConstraintLE"
    "rhs (constraint_4 (length students) period j) = MAX_NUM_IN_ACTIVITY"
    by (simp_all add: constraint_3_def constraint_4_def)
  have sums: "expr_value varValue (lhs (constraint_3 (length students) period j)) =
          (\<Sum>i\<leftarrow>[0..<length students]. varValue (period, i, j)) \<and>
        expr_value varValue (lhs (constraint_4 (length students) period j)) =
          (\<Sum>i\<leftarrow>[0..<length students]. varValue (period, i, j))" for varValue
    by (simp add: constraint_3_def constraint_4_def expr_value_lpSum comp_def)
  have size: "MIN_NUM_IN_ACTIVITY \<le>
          int (length (filter (\<lambda>i. assignments (students' ! i) ! period = ACTIVITIES_LIST ! j)
                 [0..<length students])) \<and>
        int (length (filter (\<lambda>i. assignments (students' ! i) ! period = ACTIVITIES_LIST ! j)
                 [0..<length students])) \<le> MAX_NUM_IN_ACTIVITY"
    if feas: "feasible p varValue"
      and ext: "extract_solution varValue students = Inr students'"
    for varValue students'
  proof -
    have "filter (\<lambda>i. assignments (students' ! i) ! period = ACTIVITIES_LIST ! j)
            [0..<length students] =
          filter (\<lambda>i. varValue (period, i, j) = 1) [0..<length students]"
      by (rule filter_cong)
         (simp_all add: feasible_assignment_iff [OF assms feas ext period _ j])
    moreover have "\<forall>i\<in>set [0..<length students].
        varValue (period, i, j) = 0 \<or> varValue (period, i, j) = 1"
      using feasible_binary [OF assms(2) feas period _ j] by simp
    then have "(\<Sum>i\<leftarrow>[0..<length students]. varValue (period, i, j)) =
        int (length (filter (\<lambda>i. varValue (period, i, j) = 1) [0..<length students]))"
      by (rule sum_list_binary)
    moreover from feas period j
    have "MIN_NUM_IN_ACTIVITY \<le> (\<Sum>i\<leftarrow>[0..<length students]. varValue (period, i, j))"
      "(\<Sum>i\<leftarrow>[0..<length students]. varValue (period, i, j)) \<le> MAX_NUM_IN_ACTIVITY"
      by (simp_all add: feasible_prob_iff [OF assms(2)])
    ultimately show ?thesis by simp
  qed
  from mem shape sums size
  show "constraint_3 (length students) period j \<in> set (constraints p) \<and>
     rel (constraint_3 (length students) period j) = LpConstraintGE \<and>
     rhs (constraint_3 (length students) period j) = MIN_NUM_IN_ACTIVITY \<and>
     constraint_4 (length students) period j \<in> set (constraints p) \<and>
     rel (constraint_4 (length students) period j) = LpConstraintLE \<and>
     rhs (constraint_4 (length students) period j) = MAX_NUM_IN_ACTIVITY \<and>
     (\<forall>varValue.
        expr_value varValue (lhs (constraint_3 (length students) period j)) =
          (\<Sum>i\<leftarrow>[0..<length students]. varValue (period, i, j)) \<and>
        expr_value varValue (lhs (constraint_4 (length students) period j)) =
          (\<Sum>i\<leftarrow>[0..<length students]. varValue (period, i, j))) \<and>
     (\<forall>varValue students'.
        feasible p varValue \<longrightarrow> extract_solution varValue students = Inr students' \<longrightarrow>
        MIN_NUM_IN_ACTIVITY \<le>
          int (length (filter (\<lambda>i. assignments (students' ! i) ! period = ACTIVITIES_LIST ! j)
                 [0..<length students])) \<and>
        int (length (filter (\<lambda>i. assignments (students' ! i) ! period = ACTIVITIES_LIST ! j)
                 [0..<length students])) \<le> MAX_NUM_IN_ACTIVITY)"
    by (intro conjI allI impI) simp_all
qed

theorem activity_sizes_within_bounds_witness:
  "student_info_dicts example_data = Inr example_students \<and>
   prob example_students = Inr example_prob \<and>
   feasible example_prob example_varValue \<and>
   extract_solution example_varValue example_students = Inr example_extracted \<and>
   constraint_3 (length example_students) 2 4 \<in> set (constraints example_prob) \<and>
   constraint_4 (length example_students) 2 4 \<in> set (constraints example_prob) \<and>
   MIN_NUM_IN_ACTIVITY \<le>
     int (length (filter (\<lambda>i. assignments (example_extracted ! i) ! 2 = ACTIVITIES_LIST ! 4)
            [0..<length example_students])) \<and>
   int (length (filter (\<lambda>i. assignments (example_extracted ! i) ! 2 = ACTIVITIES_LIST ! 4)
            [0..<length example_students])) \<le> MAX_NUM_IN_ACTIVITY"
proof -
  have "2 < NUM_PERIODS" "4 < NUM_ACTIVITIES"
    by (simp_all add: NUM_PERIODS_def NUM_ACTIVITIES_eq)
  with activity_sizes_within_bounds [OF example_loads example_prob]
  have "constraint_3 (length example_students) 2 4 \<in> set (constraints example_prob) \<and>
     constraint_4 (length example_students) 2 4 \<in> set (constraints example_prob) \<and>
     (\<forall>varValue students'.
        feasible example_prob varValue \<longrightarrow>
        extract_solution varValue example_students = Inr students' \<longrightarrow>
        MIN_NUM_IN_ACTIVITY \<le>
          int (length (filter (\<lambda>i. assignments (students' ! i) ! 2 = ACTIVITIES_LIST ! 4)
                 [0..<length example_students])) \<and>
        int (length (filter (\<lambda>i. assignments (students' ! i) ! 2 = ACTIVITIES_LIST ! 4)
                 [0..<length example_students])) \<le> MAX_NUM_IN_ACTIVITY)"
    by blast
  with example_feasible example_extract example_loads example_prob
  show ?thesis by blast
qed

text \<open>
  C1. For every student the built problem contains the equality constraint that the sum,
  over all periods and over the four activities of the student's list of choices, of the
  student's variables is 3; hence in every feasible (in particular every optimal)
  solution exactly 3 of the student's 4 ranked choices are among the assignments the
  extraction gives the student.
\<close>

theorem three_of_four_choices:
  assumes "student_info_dicts student_choice_data = Inr students"
    and "prob students = Inr p"
  shows "\<forall>i<length students.
     constraint_5 i (students ! i) \<in> set (constraints p) \<and>
     rel (constraint_5 i (students ! i)) = LpConstraintEQ \<and>
     rhs (constraint_5 i (students ! i)) = 3 \<and>
     length (choices (students ! i)) = 4 \<and>
     (\<forall>varValue. expr_value varValue (lhs (constraint_5 i (students ! i))) =
        (\<Sum>period\<leftarrow>[0..<NUM_PERIODS]. \<Sum>j\<leftarrow>choices (students ! i). varValue (period, i, j))) \<and>
     (\<forall>varValue students'.
        feasible p varValue \<longrightarrow> extract_solution varValue students = Inr students' \<longrightarrow>
        length (choices_full_names (students' ! i)) = 4 \<and>
        length (filter (\<lambda>c. c \<in> set (assignments (students' ! i)))
                  (choices_full_names (students' ! i))) = 3)"
proof (intro allI impI conjI)
  fix i
  assume i: "i < length students"
  show "constraint_5 i (students ! i) \<in> set (constraints p)"
    using i by (simp add: prob_fields(3) [OF assms(2)] constraint_5_mem)
  show "rel (constraint_5 i (students ! i)) = LpConstraintEQ"
    "rhs (constraint_5 i (students ! i)) = 3"
    by (simp_all add: constraint_5_def)
  show "length (choices (students ! i)) = 4"
    using loaded_choices_length(1) [OF assms(1)] i by simp
  show "expr_value varValue (lhs (constraint_5 i (students ! i))) =
        (\<Sum>period\<leftarrow>[0..<NUM_PERIODS]. \<Sum>j\<leftarrow>choices (students ! i). varValue (period, i, j))"
    for varValue
    by (simp add: constraint_5_def expr_value_lpSum comp_def sum_list_concat_map)
  fix varValue students'
  assume feas: "feasible p varValue"
    and ext: "extract_solution varValue students = Inr students'"
  show "length (choices_full_names (students' ! i)) = 4"
    by (rule feasible_three_of_four(1) [OF assms feas ext i])
  show "length (filter (\<lambda>c. c \<in> set (assignments (students' ! i)))
                  (choices_full_names (students' ! i))) = 3"
    using feasible_three_of_four(2) [OF assms feas ext i]
    by (simp add: sum_got_choice_filter)
qed

theorem three_of_four_choices_witness:
  "student_info_dicts example_data = Inr example_students \<and>
   prob example_students = Inr example_prob \<and>
   feasible example_prob example_varValue \<and>
   extract_solution example_varValue example_students = Inr example_extracted \<and>
   constraint_5 7 (example_students ! 7) \<in> set (constraints example_prob) \<and>
   length (choices_full_names (example_extracted ! 7)) = 4 \<and>
   length (filter (\<lambda>c. c \<in> set (assignments (example_extracted ! 7)))
             (choices_full_names (example_extracted ! 7))) = 3"
proof -
  have "7 < length example_students"
    by (simp add: length_example_students)
  with three_of_four_choices [OF example_loads example_prob]
  have "constraint_5 7 (example_students ! 7) \<in> set (constraints example_prob) \<and>
     (\<forall>varValue students'.
        feasible example_prob varValue \<longrightarrow>
        extract_solution varValue example_students = Inr students' \<longrightarrow>
        length (choices_full_names (students' ! 7)) = 4 \<and>
        length (filter (\<lambda>c. c \<in> set (assignments (students' ! 7)))
                  (choices_full_names (students' ! 7))) = 3)"
    by blast
  with example_feasible example_extract example_loads example_prob
  show ?thesis by blast
qed

text \<open>
  C8. The sanity check reads, for every student, only the names of the four choices and
  the list of assignments (neither the solution nor the objective value is among its
  arguments), and counts a student when exactly 3 of the 4 names occur anywhere in the
  list of assignments. Whenever the solver returns status 1 with a feasible solution
  (which every optimal solution is), the run succeeds, the count of students with 3 of 4
  equals the number of students, there is at least one student, and the reported
  percentage is 100. The percentage is computed in exact arithmetic; the quotient of two
  equal positive integers is 1 in floating point as well.
\<close>

theorem sanity_check_counts_every_student:
  assumes "student_info_dicts student_choice_data = Inr students"
    and "prob students = Inr p" "solve p = (1, varValue)" "feasible p varValue"
  shows "\<exists>out students' t r.
     assignment_outputs student_choice_data solve = Inr (out, students') \<and>
     sanity_check students' = Inr t \<and>
     science_fair student_choice_data solve = Inr (out, t, r) \<and>
     total_got_3_of_4 t =
       length (filter (\<lambda>st. length (filter (\<lambda>c. c \<in> set (assignments st))
                                     (choices_full_names st)) = 3) students') \<and>
     total_got_3_of_4 t = length student_choice_data \<and>
     0 < length student_choice_data \<and>
     percent_3_of_4 r = 100"
proof -
  obtain students' rows where ext: "extract_solution varValue students = Inr students'"
    and out: "assignment_outputs student_choice_data solve =
       Inr (\<lparr>header_row = headers, data_rows = rows\<rparr>, students')"
    and len: "length students' = length students"
    and names: "\<forall>st\<in>set students'. length (choices_full_names st) = 4"
    using feasible_run [where solve = solve, OF assms] by metis
  let ?three = "\<lambda>st. length (filter (\<lambda>c. c \<in> set (assignments st))
                                     (choices_full_names st)) = 3"
  define t where "t = \<lparr>total_got_choice1 =
            (\<Sum>st\<leftarrow>students'. got_choice (choices_full_names st ! 0) (assignments st)),
          total_got_choice2 =
            (\<Sum>st\<leftarrow>students'. got_choice (choices_full_names st ! 1) (assignments st)),
          total_got_choice3 =
            (\<Sum>st\<leftarrow>students'. got_choice (choices_full_names st ! 2) (assignments st)),
          total_got_choice4 =
            (\<Sum>st\<leftarrow>students'. got_choice (choices_full_names st ! 3) (assignments st)),
          total_got_3_of_4 = length (filter ?three students')\<rparr>"
  have check: "sanity_check students' = Inr t"
    unfolding t_def by (rule sanity_check_eq [OF names])
  have count: "total_got_3_of_4 t = length (filter ?three students')"
    by (simp add: t_def)
  have "\<forall>st\<in>set students'. ?three st"
  proof
    fix st assume "st \<in> set students'"
    then obtain i where i: "i < length students" "students' ! i = st"
      using len by (auto simp: in_set_conv_nth)
    from feasible_three_of_four(2) [OF assms(1,2,4) ext i(1)] i(2)
    show "?three st" by (simp add: sum_got_choice_filter)
  qed
  then have "filter ?three students' = students'" by simp
  with count len have all: "total_got_3_of_4 t = length student_choice_data"
    by (simp add: loaded_length [OF assms(1)])
  have pos: "0 < length student_choice_data"
    using feasible_students_exist [OF assms(2,4)] by (simp add: loaded_length [OF assms(1)])
  from print_report_3_of_4 [OF pos all]
  obtain r where r: "print_report t (length student_choice_data) = Inr r"
    "percent_3_of_4 r = 100" by blast
  have "science_fair student_choice_data solve =
      Inr (\<lparr>header_row = headers, data_rows = rows\<rparr>, t, r)"
    by (simp add: science_fair_def out check r(1))
  with out check count all pos r(2) show ?thesis by blast
qed

theorem sanity_check_counts_every_student_witness:
  "student_info_dicts example_data = Inr example_students \<and>
   prob example_students = Inr example_prob \<and>
   example_solve example_prob = (1, example_varValue) \<and>
   feasible example_prob example_varValue \<and>
   (\<exists>out students' t r.
      assignment_outputs example_data example_solve = Inr (out, students') \<and>
      sanity_check students' = Inr t \<and>
      science_fair example_data example_solve = Inr (out, t, r) \<and>
      total_got_3_of_4 t = 55 \<and>
      percent_3_of_4 r = 100)"
proof -
  have solve: "example_solve example_prob = (1, example_varValue)"
    by (simp add: example_solve_def)
  have "length example_data = 55"
    by (simp add: example_data_def)
  with sanity_check_counts_every_student
    [where solve = example_solve, OF example_loads example_prob solve example_feasible]
  have "\<exists>out students' t r.
      assignment_outputs example_data example_solve = Inr (out, students') \<and>
      sanity_check students' = Inr t \<and>
      science_fair example_data example_solve = Inr (out, t, r) \<and>
      total_got_3_of_4 t = 55 \<and>
      percent_3_of_4 r = 100"
    by auto
  with example_loads example_prob solve example_feasible show ?thesis by blast
qed

text \<open>
  C9. After a successful solve, the row written for a student has exactly 8 fields, in
  this order: the last name, a comma and a space, and the first name; the four choices of
  the input row in rank order; and exactly 3 assignment fields, which are the names the
  solution gives the student, period by period. When the solution is feasible, the three
  fields are the activities of the periods 0, 1 and 2 respectively.
\<close>

theorem output_record_fields:
  assumes "assignment_outputs student_choice_data solve = Inr (out, students')"
  shows "\<exists>students p.
     student_info_dicts student_choice_data = Inr students \<and>
     prob students = Inr p \<and> fst (solve p) = 1 \<and>
     length (data_rows out) = length student_choice_data \<and>
     (\<forall>i<length student_choice_data.
        \<exists>first_name last_name choice1 choice2 choice3 choice4
           assignment1 assignment2 assignment3.
          student_choice_data ! i =
            [first_name, last_name, choice1, choice2, choice3, choice4] \<and>
          data_rows out ! i =
            [last_name @ '', '' @ first_name, choice1, choice2, choice3, choice4,
             assignment1, assignment2, assignment3] \<and>
          period_assignment (snd (solve p)) 0 i @ period_assignment (snd (solve p)) 1 i @
            period_assignment (snd (solve p)) 2 i = [assignment1, assignment2, assignment3] \<and>
          (feasible p (snd (solve p)) \<longrightarrow>
             period_assignment (snd (solve p)) 0 i = [assignment1] \<and>
             period_assignment (snd (solve p)) 1 i = [assignment2] \<and>
             period_assignment (snd (solve p)) 2 i = [assignment3]))"
proof -
  from assms obtain students p rows where
    load: "student_info_dicts student_choice_data = Inr students"
    and prob: "prob students = Inr p"
    and status: "fst (solve p) = 1"
    and ext: "extract_solution (snd (solve p)) students = Inr students'"
    and rows: "results students' = Inr rows"
    and out: "out = \<lparr>header_row = headers, data_rows = rows\<rparr>"
    by (rule assignment_outputs_Inr)
  let ?v = "snd (solve p)"
  have len: "length students = length student_choice_data"
    by (rule loaded_length [OF load])
  have len': "length students' = length students"
    by (rule extract_solution_length [OF ext])
  have row: "\<exists>first_name last_name choice1 choice2 choice3 choice4
           assignment1 assignment2 assignment3.
          student_choice_data ! i =
            [first_name, last_name, choice1, choice2, choice3, choice4] \<and>
          data_rows out ! i =
            [last_name @ '', '' @ first_name, choice1, choice2, choice3, choice4,
             assignment1, assignment2, assignment3] \<and>
          period_assignment ?v 0 i @ period_assignment ?v 1 i @
            period_assignment ?v 2 i = [assignment1, assignment2, assignment3] \<and>
          (feasible p ?v \<longrightarrow>
             period_assignment ?v 0 i = [assignment1] \<and>
             period_assignment ?v 1 i = [assignment2] \<and>
             period_assignment ?v 2 i = [assignment3])"
    if "i < length student_choice_data" for i
  proof -
    from that len have i: "i < length students" by simp
    obtain first_name last_name c1 c2 c3 c4 n1 n2 n3 n4 where
      input: "student_choice_data ! i = [first_name, last_name, c1, c2, c3, c4]"
      and st: "students ! i = \<lparr>choices = [n1, n2, n3, n4],
           choices_full_names = [c1, c2, c3, c4],
           name = last_name @ '', '' @ first_name, assignments = []\<rparr>"
      using student_info_dict_Inr [OF loaded_nth [OF load i]] by metis
    have asg: "assignments (students' ! i) =
        period_assignment ?v 0 i @ period_assignment ?v 1 i @ period_assignment ?v 2 i"
      by (rule loaded_assignments(1) [OF load i ext])
    have i': "i < length students'" using i len' by simp
    from results_nth(3) [OF rows i'] obtain a1 a2 a3 where
      a: "assignments (students' ! i) = [a1, a2, a3]"
      by (auto simp: length_Suc_conv numeral_3_eq_3)
    have r: "data_rows out ! i =
        [last_name @ '', '' @ first_name, c1, c2, c3, c4, a1, a2, a3]"
      using results_nth(4) [OF rows i'] a
      by (simp add: loaded_assignments(3,4) [OF load i ext] st out)
    have cat: "period_assignment ?v 0 i @ period_assignment ?v 1 i @
        period_assignment ?v 2 i = [a1, a2, a3]"
      using asg a by simp
    have "period_assignment ?v 0 i = [a1] \<and> period_assignment ?v 1 i = [a2] \<and>
        period_assignment ?v 2 i = [a3]" if feas: "feasible p ?v"
    proof -
      have p: "0 < NUM_PERIODS" "1 < NUM_PERIODS" "2 < NUM_PERIODS"
        by (simp_all add: NUM_PERIODS_def)
      obtain j0 where "period_assignment ?v 0 i = [ACTIVITIES_LIST ! j0]"
        using feasible_one_activity [OF prob feas p(1) i] by metis
      moreover obtain j1 where "period_assignment ?v 1 i = [ACTIVITIES_LIST ! j1]"
        using feasible_one_activity [OF prob feas p(2) i] by metis
      moreover obtain j2 where "period_assignment ?v 2 i = [ACTIVITIES_LIST ! j2]"
        using feasible_one_activity [OF prob feas p(3) i] by metis
      ultimately show ?thesis using cat by simp
    qed
    with input r cat show ?thesis by blast
  qed
  have "length (data_rows out) = length student_choice_data"
    using results_length [OF rows] len len' by (simp add: out)
  with load prob status row show ?thesis by blast
qed

theorem output_record_fields_witness:
  "assignment_outputs example_data example_solve = Inr (example_output, example_extracted) \<and>
   length (data_rows example_output) = length example_data \<and>
   (\<exists>first_name last_name choice1 choice2 choice3 choice4
       assignment1 assignment2 assignment3.
      example_data ! 7 = [first_name, last_name, choice1, choice2, choice3, choice4] \<and>
      data_rows example_output ! 7 =
        [last_name @ '', '' @ first_name, choice1, choice2, choice3, choice4,
         assignment1, assignment2, assignment3])"
proof -
  have "7 < length example_data"
    by (simp add: example_data_def)
  with output_record_fields [OF example_assignment_outputs]
  have "length (data_rows example_output) = length example_data \<and>
   (\<exists>first_name last_name choice1 choice2 choice3 choice4
       assignment1 assignment2 assignment3.
      example_data ! 7 = [first_name, last_name, choice1, choice2, choice3, choice4] \<and>
      data_rows example_output ! 7 =
        [last_name @ '', '' @ first_name, choice1, choice2, choice3, choice4,
         assignment1, assignment2, assignment3])"
    by blast
  with example_assignment_outputs show ?thesis by blast
qed

end
